theory Spec2Isabelle
  imports Main "HOL-Library.List_Lexorder" "HOL-Library.Char_ord"
begin

section \<open>JavaScript values\<close>

text \<open>
  A value of TypeScript type \<open>string | undefined\<close> is a \<open>string option\<close>, with
  \<open>None\<close> for \<open>undefined\<close>. An array of strings is a list of such values, because
  reading an index past its end gives \<open>undefined\<close> and the code stores what it reads:
  an event from the wire holds only \<open>Some\<close> elements, of any number per tag.
  A string is the list of its code units, each below 256: a \<open>char\<close> is the code
  unit of that number, and comparing strings by code unit is the lexicographic order of
  \<open>char list\<close>. A string with a code unit above 255 is outside the model. A
  \<open>number\<close> that holds a Unix time or an event kind is an \<open>int\<close>, and \<open>NaN\<close> is
  \<open>None\<close>. A double holds every integer of magnitude up to \<open>2^53 - 1\<close> exactly (the
  safe integers); the model is exact there, and the properties that depend on the value of
  a number assume it.
\<close>

datatype js_error = TypeError

definition truthy :: "string option \<Rightarrow> bool" where
  "truthy v = (case v of None \<Rightarrow> False | Some s \<Rightarrow> s \<noteq> [])"

definition at_index :: "'a option list \<Rightarrow> nat \<Rightarrow> 'a option" where
  "at_index xs i = (if i < length xs then xs ! i else None)"

definition tag_of :: "string list \<Rightarrow> string option list" where
  "tag_of xs = map Some xs"

subsection \<open>parseInt and Number.prototype.toString\<close>

text \<open>
  The white space that \<open>parseInt\<close> skips, among the code units below 256: tab, line
  feed, vertical tab, form feed, carriage return, space and the no-break space.
\<close>

definition isWhiteSpace :: "char \<Rightarrow> bool" where
  "isWhiteSpace c = (of_char c \<in> {9, 10, 11, 12, 13, 32, 160 :: nat})"

definition isDecDigit :: "char \<Rightarrow> bool" where
  "isDecDigit c = (48 \<le> (of_char c :: nat) \<and> (of_char c :: nat) \<le> 57)"

definition isHexDigit :: "char \<Rightarrow> bool" where
  "isHexDigit c = (isDecDigit c
     \<or> (65 \<le> (of_char c :: nat) \<and> (of_char c :: nat) \<le> 70)
     \<or> (97 \<le> (of_char c :: nat) \<and> (of_char c :: nat) \<le> 102))"

definition digitValue :: "char \<Rightarrow> nat" where
  "digitValue c = (if isDecDigit c then of_char c - 48
                   else if 97 \<le> (of_char c :: nat) then of_char c - 87
                   else of_char c - 55)"

definition digitsValue :: "nat \<Rightarrow> string \<Rightarrow> nat" where
  "digitsValue R z = foldl (\<lambda>acc c. acc * R + digitValue c) 0 z"

text \<open>The sign of \<open>parseInt\<close>: a leading minus or plus is consumed.\<close>

fun splitSign :: "string \<Rightarrow> int \<times> string" where
  "splitSign [] = (1, [])"
| "splitSign (c # cs) =
     (if c = CHR ''-'' then (- 1, cs) else if c = CHR ''+'' then (1, cs) else (1, c # cs))"

text \<open>With no radix argument a prefix \<open>0x\<close> or \<open>0X\<close> selects radix 16.\<close>

fun stripPrefix :: "string \<Rightarrow> nat \<times> string" where
  "stripPrefix (a # b # cs) =
     (if a = CHR ''0'' \<and> (b = CHR ''x'' \<or> b = CHR ''X'') then (16, cs) else (10, a # b # cs))"
| "stripPrefix cs = (10, cs)"

definition parseDigits :: "int \<Rightarrow> nat \<Rightarrow> string \<Rightarrow> int option" where
  "parseDigits sign R s =
     (let z = takeWhile (if R = 16 then isHexDigit else isDecDigit) s
      in if z = [] then None else Some (sign * int (digitsValue R z)))"

text \<open>
  \<open>parseInt(s)\<close> as the code calls it, with one argument. The result is the integer
  that the digits denote; the runtime rounds it to a double, which is the same number
  when it is a safe integer.
\<close>

definition parseInt :: "string \<Rightarrow> int option" where
  "parseInt s =
     (case splitSign (dropWhile isWhiteSpace s) of (sign, s1) \<Rightarrow>
        (case stripPrefix s1 of (R, s2) \<Rightarrow> parseDigits sign R s2))"

text \<open>
  The specification speaks of parsing a base-10 integer: \<open>parseInt(s, 10)\<close>, where no
  prefix is stripped. It is defined from the specification's words, to be compared with
  what the code calls.
\<close>

definition parseInt10 :: "string \<Rightarrow> int option" where
  "parseInt10 s =
     (case splitSign (dropWhile isWhiteSpace s) of (sign, s1) \<Rightarrow> parseDigits sign 10 s1)"

function natToDigits :: "nat \<Rightarrow> string" where
  "natToDigits n =
     (if n < 10 then [char_of (48 + n)]
      else natToDigits (n div 10) @ [char_of (48 + n mod 10)])"
  by pat_completeness auto
termination
  by (relation "measure id") auto

declare natToDigits.simps [simp del]

definition isSafeInteger :: "int \<Rightarrow> bool" where
  "isSafeInteger n = (- (2 ^ 53 - 1) \<le> n \<and> n \<le> 2 ^ 53 - 1)"

text \<open>
  \<open>n.toString()\<close>. For a safe integer the result is its decimal digits. Beyond, the
  result is the shortest digits that round to the same double, in exponent notation from
  \<open>10^21\<close> (\<open>1e+21\<close>): it is what the runtime prints, the parameter \<open>beyond\<close>.
\<close>

definition toString :: "(int \<Rightarrow> string) \<Rightarrow> int \<Rightarrow> string" where
  "toString beyond n =
     (if isSafeInteger n
      then (if n < 0 then CHR ''-'' # natToDigits (nat (- n)) else natToDigits (nat n))
      else beyond n)"

text \<open>\<open>s.split(sep)\<close> for a separator of one character.\<close>

fun split :: "char \<Rightarrow> string \<Rightarrow> string list" where
  "split sep [] = [[]]"
| "split sep (c # cs) =
     (if c = sep then [] # split sep cs
      else (case split sep cs of [] \<Rightarrow> [[c]] | w # ws \<Rightarrow> (c # w) # ws))"

section \<open>Raw protocol events and the tag accessor\<close>

record NostrEvent =
  ev_id :: string
  ev_pubkey :: string
  ev_kind :: int
  ev_created_at :: int
  ev_content :: string
  ev_tags :: "string option list list"

definition hasName :: "string \<Rightarrow> string option list \<Rightarrow> bool" where
  "hasName tagName tag = (at_index tag 0 = Some tagName)"

definition getTagValue :: "NostrEvent \<Rightarrow> string \<Rightarrow> string option" where
  "getTagValue event tagName =
     (case find (hasName tagName) (ev_tags event) of
        None \<Rightarrow> None
      | Some tag \<Rightarrow> at_index tag 1)"

definition getTagValues :: "NostrEvent \<Rightarrow> string \<Rightarrow> string option list" where
  "getTagValues event tagName =
     map (\<lambda>tag. at_index tag 1) (filter (hasName tagName) (ev_tags event))"

text \<open>The name of a tag: its first element.\<close>

definition tagName :: "string option list \<Rightarrow> string option" where
  "tagName tag = at_index tag 0"

section \<open>Validator\<close>

text \<open>The regular expression \<open>/^\d{4}-\d{2}-\d{2}$/\<close>.\<close>

definition dateRegex :: "string \<Rightarrow> bool" where
  "dateRegex s =
     (length s = 10 \<and> list_all isDecDigit (take 4 s) \<and> s ! 4 = CHR ''-''
      \<and> list_all isDecDigit (take 2 (drop 5 s)) \<and> s ! 7 = CHR ''-''
      \<and> list_all isDecDigit (drop 8 s))"

text \<open>
  The block of \<open>validateCalendarEvent\<close> for kind 31922: \<open>False\<close> where the block
  returns false, \<open>True\<close> where control leaves it.
\<close>

definition validateDateBlock :: "NostrEvent \<Rightarrow> string \<Rightarrow> bool" where
  "validateDateBlock event start =
     (if \<not> dateRegex start then False
      else (case getTagValue event ''end'' of
              None \<Rightarrow> True
            | Some e \<Rightarrow>
                if e = [] then True
                else if \<not> dateRegex e then False
                else if e \<le> start then False
                else True))"

text \<open>
  The block for kind 31923. \<open>isValidTimeZone\<close> asks the runtime's time zone database
  (\<open>Intl.DateTimeFormat\<close>) and is a parameter.
\<close>

definition validateTimeBlock :: "(string \<Rightarrow> bool) \<Rightarrow> NostrEvent \<Rightarrow> string \<Rightarrow> bool" where
  "validateTimeBlock isValidTimeZone event start =
     (case parseInt start of
        None \<Rightarrow> False
      | Some timestamp \<Rightarrow>
          if timestamp \<le> 0 then False
          else if (case getTagValue event ''end'' of
                     None \<Rightarrow> False
                   | Some endStr \<Rightarrow>
                       endStr \<noteq> [] \<and>
                       (case parseInt endStr of
                          None \<Rightarrow> True
                        | Some endTime \<Rightarrow> endTime \<le> 0 \<or> endTime \<le> timestamp))
          then False
          else if (case getTagValue event ''start_tzid'' of
                     None \<Rightarrow> False
                   | Some z \<Rightarrow> z \<noteq> [] \<and> \<not> isValidTimeZone z)
          then False
          else if (case getTagValue event ''end_tzid'' of
                     None \<Rightarrow> False
                   | Some z \<Rightarrow> z \<noteq> [] \<and> \<not> isValidTimeZone z)
          then False
          else True)"

definition validateCalendarEvent :: "(string \<Rightarrow> bool) \<Rightarrow> NostrEvent \<Rightarrow> bool" where
  "validateCalendarEvent isValidTimeZone event =
     (if ev_kind event \<noteq> 31922 \<and> ev_kind event \<noteq> 31923 then False
      else if \<not> truthy (getTagValue event ''d'') \<or> \<not> truthy (getTagValue event ''title'')
        then False
      else (case getTagValue event ''start'' of
              None \<Rightarrow> False
            | Some start \<Rightarrow>
                if start = [] then False
                else if ev_kind event = 31922 \<and> \<not> validateDateBlock event start then False
                else if ev_kind event = 31923
                        \<and> \<not> validateTimeBlock isValidTimeZone event start then False
                else True))"

definition validateCalendar :: "NostrEvent \<Rightarrow> bool" where
  "validateCalendar event =
     (if ev_kind event \<noteq> 31924 then False
      else truthy (getTagValue event ''d'') \<and> truthy (getTagValue event ''title''))"

text \<open>
  \<open>validateCalendarEventRSVP\<close> reads \<open>aTag[1]\<close> and calls \<open>split\<close> on it: on
  \<open>undefined\<close> that call throws a \<open>TypeError\<close>, the \<open>Inl\<close> result.
\<close>

definition validateCalendarEventRSVP :: "NostrEvent \<Rightarrow> js_error + bool" where
  "validateCalendarEventRSVP event =
     (if ev_kind event \<noteq> 31925 then Inr False
      else
        let d = getTagValue event ''d'';
            status = getTagValue event ''status'';
            aTag = find (hasName ''a'') (ev_tags event)
        in
          (case aTag of
             None \<Rightarrow> Inr False
           | Some aTag' \<Rightarrow>
               if \<not> truthy d \<or> \<not> truthy status then Inr False
               else if status \<notin> set [Some ''accepted'', Some ''declined'', Some ''tentative'']
                 then Inr False
               else if status = Some ''declined''
                       \<and> find (hasName ''fb'') (ev_tags event) \<noteq> None then Inr False
               else
                 let fbValue = getTagValue event ''fb'' in
                   if truthy fbValue \<and> fbValue \<notin> set [Some ''free'', Some ''busy'']
                     then Inr False
                   else
                     (case at_index aTag' 1 of
                        None \<Rightarrow> Inl TypeError
                      | Some aValue \<Rightarrow>
                          let aParts = split CHR '':'' aValue in
                            if length aParts < 3 then Inr False
                            else
                              (case parseInt (aParts ! 0) of
                                 None \<Rightarrow> Inr False
                               | Some kind \<Rightarrow>
                                   if kind \<noteq> 31922 \<and> kind \<noteq> 31923 then Inr False
                                   else Inr True))))"

section \<open>Domain objects\<close>

text \<open>
  The fields are those of the TypeScript interfaces. A field that \<open>parseCalendarEvent\<close>
  fills with \<open>tag[i]\<close> can hold \<open>undefined\<close> at run time whatever its declared type,
  so a participant's \<open>pubkey\<close> and the elements of the list fields are optional
  strings. The \<open>kind\<close> of a calendar event is its constructor.
\<close>

record ParticipantInfo =
  participant_pubkey :: "string option"
  relayUrl :: "string option"
  role :: "string option"

record BaseCalendarEvent =
  id' :: string
  pubkey :: string
  created_at :: int
  content :: string
  tags :: "string option list list"
  d :: string
  title :: string
  summary :: "string option"
  image' :: "string option"
  locations :: "string option list"
  geohash :: "string option"
  participants :: "ParticipantInfo list"
  hashtags :: "string option list"
  references :: "string option list"
  calendarRefs :: "string option list"

datatype CalendarEvent =
    DateBasedCalendarEvent (base: BaseCalendarEvent) (date_start: string)
      (date_end: "string option")
  | TimeBasedCalendarEvent (base: BaseCalendarEvent) (time_start: int)
      (time_end: "int option") (start_tzid: "string option") (end_tzid: "string option")

fun kind_of :: "CalendarEvent \<Rightarrow> int" where
  "kind_of (DateBasedCalendarEvent b s e) = 31922"
| "kind_of (TimeBasedCalendarEvent b s e z1 z2) = 31923"

datatype RSVPStatus = Accepted | Declined | Tentative

datatype FreeBusy = Free | Busy

fun statusString :: "RSVPStatus \<Rightarrow> string" where
  "statusString Accepted = ''accepted''"
| "statusString Declined = ''declined''"
| "statusString Tentative = ''tentative''"

fun freebusyString :: "FreeBusy \<Rightarrow> string" where
  "freebusyString Free = ''free''"
| "freebusyString Busy = ''busy''"

record CalendarEventRSVP =
  rsvp_id :: string
  rsvp_pubkey :: string
  rsvp_created_at :: int
  rsvp_content :: string
  eventCoordinates :: string
  eventId :: "string option"
  rsvp_d :: string
  status :: RSVPStatus
  freebusy :: "FreeBusy option"
  authorPubkey :: "string option"

text \<open>\<open>Partial<NostrEvent>\<close> as the serializers fill it: kind, content and tags.\<close>

record PartialNostrEvent =
  part_kind :: int
  part_content :: string
  part_tags :: "string option list list"

text \<open>The object spread \<open>{...partial, id, pubkey, created_at}\<close>.\<close>

definition mergeEvent :: "PartialNostrEvent \<Rightarrow> string \<Rightarrow> string \<Rightarrow> int \<Rightarrow> NostrEvent" where
  "mergeEvent partial i p c =
     \<lparr>ev_id = i, ev_pubkey = p, ev_kind = part_kind partial, ev_created_at = c,
      ev_content = part_content partial, ev_tags = part_tags partial\<rparr>"

section \<open>Codec\<close>

definition parseParticipant :: "string option list \<Rightarrow> ParticipantInfo" where
  "parseParticipant tag =
     \<lparr>participant_pubkey = at_index tag 1, relayUrl = at_index tag 2, role = at_index tag 3\<rparr>"

definition baseEvent :: "NostrEvent \<Rightarrow> string \<Rightarrow> string \<Rightarrow> BaseCalendarEvent" where
  "baseEvent event dv tv =
     \<lparr>id' = ev_id event, pubkey = ev_pubkey event, created_at = ev_created_at event,
      content = ev_content event, tags = ev_tags event, d = dv, title = tv,
      summary = getTagValue event ''summary'', image' = getTagValue event ''image'',
      locations = getTagValues event ''location'', geohash = getTagValue event ''g'',
      participants = map parseParticipant (filter (hasName ''p'') (ev_tags event)),
      hashtags = getTagValues event ''t'', references = getTagValues event ''r'',
      calendarRefs = getTagValues event ''a''\<rparr>"

text \<open>
  \<open>endStr ? parseInt(endStr) : undefined\<close>, then \<open>end && !isNaN(end) ? end : undefined\<close>:
  \<open>undefined\<close>, \<open>NaN\<close> and \<open>0\<close> are all falsy.
\<close>

definition parseEnd :: "string option \<Rightarrow> int option" where
  "parseEnd endStr =
     (case (if truthy endStr then (case endStr of None \<Rightarrow> None | Some s \<Rightarrow> parseInt s) else None) of
        None \<Rightarrow> None
      | Some n \<Rightarrow> if n \<noteq> 0 then Some n else None)"

definition parseCalendarEvent :: "NostrEvent \<Rightarrow> CalendarEvent option" where
  "parseCalendarEvent event =
     (if ev_kind event \<noteq> 31922 \<and> ev_kind event \<noteq> 31923 then None
      else
        (case getTagValue event ''d'' of None \<Rightarrow> None | Some dv \<Rightarrow>
        (case getTagValue event ''title'' of None \<Rightarrow> None | Some tv \<Rightarrow>
        (case getTagValue event ''start'' of None \<Rightarrow> None | Some start \<Rightarrow>
           if dv = [] \<or> tv = [] \<or> start = [] then None
           else if ev_kind event = 31922 then
             Some (DateBasedCalendarEvent (baseEvent event dv tv) start
                     (getTagValue event ''end''))
           else
             (case parseInt start of
                None \<Rightarrow> None
              | Some startTime \<Rightarrow>
                  Some (TimeBasedCalendarEvent (baseEvent event dv tv) startTime
                          (parseEnd (getTagValue event ''end''))
                          (getTagValue event ''start_tzid'')
                          (getTagValue event ''end_tzid'')))))))"

text \<open>\<open>if (v) tags.push([name, v])\<close>.\<close>

definition optTag :: "string \<Rightarrow> string option \<Rightarrow> string option list list" where
  "optTag name v = (if truthy v then [[Some name, v]] else [])"

definition participantTag :: "ParticipantInfo \<Rightarrow> string option list" where
  "participantTag p =
     [Some ''p'', participant_pubkey p]
       @ (if truthy (relayUrl p) then [relayUrl p] else [])
       @ (if truthy (role p) then [role p] else [])"

definition commonTags :: "BaseCalendarEvent \<Rightarrow> string option list list" where
  "commonTags b =
     [[Some ''d'', Some (d b)], [Some ''title'', Some (title b)]]
       @ optTag ''summary'' (summary b)
       @ optTag ''image'' (image' b)
       @ map (\<lambda>location. [Some ''location'', location]) (locations b)
       @ optTag ''g'' (geohash b)
       @ map participantTag (participants b)
       @ map (\<lambda>hashtag. [Some ''t'', hashtag]) (hashtags b)
       @ map (\<lambda>reference. [Some ''r'', reference]) (references b)
       @ map (\<lambda>calRef. [Some ''a'', calRef]) (calendarRefs b)"

text \<open>
  \<open>beyond\<close> is the runtime's \<open>toString\<close> of a number that is not a safe integer.
\<close>

fun serializeCalendarEvent :: "(int \<Rightarrow> string) \<Rightarrow> CalendarEvent \<Rightarrow> PartialNostrEvent" where
  "serializeCalendarEvent beyond (DateBasedCalendarEvent b s e) =
     \<lparr>part_kind = 31922, part_content = content b,
      part_tags = commonTags b @ [[Some ''start'', Some s]] @ optTag ''end'' e\<rparr>"
| "serializeCalendarEvent beyond (TimeBasedCalendarEvent b s e z1 z2) =
     \<lparr>part_kind = 31923, part_content = content b,
      part_tags = commonTags b @ [[Some ''start'', Some (toString beyond s)]]
        @ (case e of None \<Rightarrow> [] | Some n \<Rightarrow> [[Some ''end'', Some (toString beyond n)]])
        @ optTag ''start_tzid'' z1 @ optTag ''end_tzid'' z2\<rparr>"

definition serializeCalendarRSVP :: "CalendarEventRSVP \<Rightarrow> PartialNostrEvent" where
  "serializeCalendarRSVP rsvp =
     \<lparr>part_kind = 31925, part_content = rsvp_content rsvp,
      part_tags =
        [[Some ''a'', Some (eventCoordinates rsvp)],
         [Some ''d'', Some (rsvp_d rsvp)],
         [Some ''status'', Some (statusString (status rsvp))]]
        @ optTag ''e'' (eventId rsvp)
        @ (case freebusy rsvp of
             None \<Rightarrow> []
           | Some fb \<Rightarrow> if status rsvp \<noteq> Declined then [[Some ''fb'', Some (freebusyString fb)]] else [])
        @ optTag ''p'' (authorPubkey rsvp)\<rparr>"

section \<open>Query planner\<close>

subsection \<open>The runtime's Date and Array.prototype.sort\<close>

text \<open>
  \<open>new Date(s).getTime() / 1000\<close> for a date-only string \<open>YYYY-MM-DD\<close>. ECMAScript
  reads a date-only form as UTC; the day number is \<open>DayFromYear\<close> of the standard
  plus the days of the months before and the day of the month. A month outside 1 to 12
  or a day outside 1 to 31 gives \<open>NaN\<close>. A day up to 31 that the month does not have
  counts on into the next month, as in V8 (2025-02-30 is read as 2 March); an engine may
  give \<open>NaN\<close> there instead, and the properties below that depend on the value take
  dates of the calendar. The query planner passes validated events only, whose start
  matches the regular expression; another string is given \<open>NaN\<close> here.
\<close>

definition isLeapYear :: "int \<Rightarrow> bool" where
  "isLeapYear y = (y mod 4 = 0 \<and> (y mod 100 \<noteq> 0 \<or> y mod 400 = 0))"

definition dayFromYear :: "int \<Rightarrow> int" where
  "dayFromYear y =
     365 * (y - 1970) + (y - 1969) div 4 - (y - 1901) div 100 + (y - 1601) div 400"

definition monthLengths :: "int \<Rightarrow> int list" where
  "monthLengths y = [31, if isLeapYear y then 29 else 28, 31, 30, 31, 30, 31, 31, 30, 31, 30, 31]"

definition dayFromDate :: "int \<Rightarrow> int \<Rightarrow> int \<Rightarrow> int option" where
  "dayFromDate y m dd =
     (if 1 \<le> m \<and> m \<le> 12 \<and> 1 \<le> dd \<and> dd \<le> 31
      then Some (dayFromYear y + sum_list (take (nat (m - 1)) (monthLengths y)) + dd - 1)
      else None)"

definition dateFields :: "string \<Rightarrow> (int \<times> int \<times> int) option" where
  "dateFields s =
     (if dateRegex s
      then Some (int (digitsValue 10 (take 4 s)), int (digitsValue 10 (take 2 (drop 5 s))),
                 int (digitsValue 10 (drop 8 s)))
      else None)"

definition dateGetTimeSeconds :: "string \<Rightarrow> int option" where
  "dateGetTimeSeconds s =
     (case dateFields s of
        None \<Rightarrow> None
      | Some (y, m, dd) \<Rightarrow> map_option (\<lambda>day. day * 86400) (dayFromDate y m dd))"

text \<open>
  \<open>a.localeCompare(b)\<close> on strings of digits and hyphens in the same positions: the
  sign of the code unit comparison.
\<close>

definition localeCompare :: "string \<Rightarrow> string \<Rightarrow> int" where
  "localeCompare a b = (if a < b then - 1 else if a = b then 0 else 1)"

text \<open>
  \<open>xs.sort(cmp)\<close>: the sort is stable, and a comparator result of \<open>NaN\<close> (here
  \<open>None\<close>) counts as zero. It is modelled as the stable insertion sort, which is
  the result of every conforming engine when the comparator is consistent. Where the
  comparator is not, as it can be when it returns \<open>NaN\<close> on some pairs, the order is
  left to the engine and this is one possible outcome; no property below sorts such a
  list.
\<close>

fun insertBy :: "('a \<Rightarrow> 'a \<Rightarrow> int option) \<Rightarrow> 'a \<Rightarrow> 'a list \<Rightarrow> 'a list" where
  "insertBy cmp x [] = [x]"
| "insertBy cmp x (y # ys) =
     (if (case cmp x y of None \<Rightarrow> False | Some v \<Rightarrow> v < 0) then x # y # ys
      else y # insertBy cmp x ys)"

definition sortBy :: "('a \<Rightarrow> 'a \<Rightarrow> int option) \<Rightarrow> 'a list \<Rightarrow> 'a list" where
  "sortBy cmp xs = foldl (\<lambda>acc x. insertBy cmp x acc) [] xs"

subsection \<open>The external query collaborator\<close>

record Filter =
  kinds :: "int list"
  limit :: nat
  until :: "int option"

text \<open>
  A relay holding \<open>store\<close> answers a filter with the events of the kinds asked for that
  were created at or before \<open>until\<close>, newest first, at most \<open>limit\<close> of them.
\<close>

definition matchesFilter :: "Filter \<Rightarrow> NostrEvent \<Rightarrow> bool" where
  "matchesFilter f e =
     (ev_kind e \<in> set (kinds f)
      \<and> (case until f of None \<Rightarrow> True | Some u \<Rightarrow> ev_created_at e \<le> u))"

definition relayQuery :: "NostrEvent list \<Rightarrow> Filter \<Rightarrow> NostrEvent list" where
  "relayQuery store f =
     take (limit f) (sort_key (\<lambda>e. - ev_created_at e) (filter (matchesFilter f) store))"

subsection \<open>Validate, parse, drop failures\<close>

text \<open>\<open>.filter(validateCalendarEvent).map(parseCalendarEvent)\<close> without the nulls.\<close>

definition validParsed :: "(string \<Rightarrow> bool) \<Rightarrow> NostrEvent list \<Rightarrow> CalendarEvent list" where
  "validParsed isValidTimeZone events =
     List.map_filter parseCalendarEvent (filter (validateCalendarEvent isValidTimeZone) events)"

subsection \<open>useUpcomingCalendarEvents\<close>

fun isUpcoming :: "int \<Rightarrow> string \<Rightarrow> CalendarEvent \<Rightarrow> bool" where
  "isUpcoming now today (TimeBasedCalendarEvent b s e z1 z2) = (s > now)"
| "isUpcoming now today (DateBasedCalendarEvent b s e) = (s \<ge> today)"

fun upcomingCompare :: "CalendarEvent \<Rightarrow> CalendarEvent \<Rightarrow> int option" where
  "upcomingCompare (TimeBasedCalendarEvent b s e z1 z2) (TimeBasedCalendarEvent b' s' e' z1' z2') =
     Some (s - s')"
| "upcomingCompare (DateBasedCalendarEvent b s e) (DateBasedCalendarEvent b' s' e') =
     Some (localeCompare s s')"
| "upcomingCompare (DateBasedCalendarEvent b s e) (TimeBasedCalendarEvent b' s' e' z1' z2') =
     (case dateGetTimeSeconds s of None \<Rightarrow> None | Some aDate \<Rightarrow> Some (aDate - s'))"
| "upcomingCompare (TimeBasedCalendarEvent b s e z1 z2) (DateBasedCalendarEvent b' s' e') =
     (case dateGetTimeSeconds s' of None \<Rightarrow> None | Some bDate \<Rightarrow> Some (s - bDate))"

text \<open>
  The page function \<open>queryFn\<close>. \<open>now\<close> and \<open>today\<close> are the clock readings,
  \<open>query\<close> the collaborator; \<open>if (pageParam)\<close> is false for \<open>undefined\<close> and for 0.
\<close>

definition upcomingQueryFn ::
  "(string \<Rightarrow> bool) \<Rightarrow> (Filter \<Rightarrow> NostrEvent list) \<Rightarrow> int \<Rightarrow> string \<Rightarrow> nat \<Rightarrow> int option
     \<Rightarrow> CalendarEvent list" where
  "upcomingQueryFn isValidTimeZone query now today lim pageParam =
     (let cursor = (case pageParam of None \<Rightarrow> None | Some p \<Rightarrow> if p \<noteq> 0 then Some p else None);
          timeBasedEvents = query \<lparr>kinds = [31923], limit = lim, until = cursor\<rparr>;
          dateBasedEvents = query \<lparr>kinds = [31922], limit = lim, until = cursor\<rparr>;
          allEvents = timeBasedEvents @ dateBasedEvents
      in sortBy upcomingCompare
           (filter (isUpcoming now today) (validParsed isValidTimeZone allEvents)))"

definition getNextPageParam :: "CalendarEvent list \<Rightarrow> int option" where
  "getNextPageParam lastPage =
     (if lastPage = [] then None else Some (created_at (base (last lastPage)) - 1))"

subsection \<open>useCalendarEventsByDateRange\<close>

text \<open>
  The range is given by the two timestamps and the two ISO dates the hook computes from
  its \<open>Date\<close> arguments. \<open>if (event.end)\<close> is false for \<open>undefined\<close>, for 0 and for
  the empty string.
\<close>

fun inDateRange :: "int \<Rightarrow> int \<Rightarrow> string \<Rightarrow> string \<Rightarrow> CalendarEvent \<Rightarrow> bool" where
  "inDateRange startTimestamp endTimestamp startIsoDate endIsoDate
       (TimeBasedCalendarEvent b s e z1 z2) =
     (case e of
        None \<Rightarrow> s \<ge> startTimestamp \<and> s \<le> endTimestamp
      | Some en \<Rightarrow>
          if en \<noteq> 0 then s \<le> endTimestamp \<and> en \<ge> startTimestamp
          else s \<ge> startTimestamp \<and> s \<le> endTimestamp)"
| "inDateRange startTimestamp endTimestamp startIsoDate endIsoDate
       (DateBasedCalendarEvent b s e) =
     (case e of
        None \<Rightarrow> s \<ge> startIsoDate \<and> s \<le> endIsoDate
      | Some en \<Rightarrow>
          if en \<noteq> [] then s \<le> endIsoDate \<and> en \<ge> startIsoDate
          else s \<ge> startIsoDate \<and> s \<le> endIsoDate)"

definition eventsByDateRange ::
  "(string \<Rightarrow> bool) \<Rightarrow> NostrEvent list \<Rightarrow> int \<Rightarrow> int \<Rightarrow> string \<Rightarrow> string \<Rightarrow> CalendarEvent list" where
  "eventsByDateRange isValidTimeZone allEvents startTimestamp endTimestamp startIsoDate endIsoDate =
     filter (inDateRange startTimestamp endTimestamp startIsoDate endIsoDate)
       (validParsed isValidTimeZone allEvents)"

subsection \<open>useCalendarEventSearch: combining the two result sets\<close>

text \<open>
  A JavaScript \<open>Map\<close> keeps its entries in insertion order: \<open>set\<close> on a key that is
  present replaces the value where the key stands, and on a new key appends.
\<close>

fun mapSet :: "('k \<times> 'v) list \<Rightarrow> 'k \<Rightarrow> 'v \<Rightarrow> ('k \<times> 'v) list" where
  "mapSet [] k v = [(k, v)]"
| "mapSet ((k', v') # m) k v = (if k' = k then (k', v) # m else (k', v') # mapSet m k v)"

definition newMap :: "('k \<times> 'v) list \<Rightarrow> ('k \<times> 'v) list" where
  "newMap entries = foldl (\<lambda>m (k, v). mapSet m k v) [] entries"

definition uniqueEvents :: "CalendarEvent list \<Rightarrow> CalendarEvent list" where
  "uniqueEvents combinedEvents =
     map snd (newMap (map (\<lambda>event. (id' (base event), event)) combinedEvents))"

definition combineSearchResults :: "CalendarEvent list \<Rightarrow> CalendarEvent list \<Rightarrow> CalendarEvent list" where
  "combineSearchResults hashtagEvents parsedEvents = uniqueEvents (hashtagEvents @ parsedEvents)"

section \<open>Reference definitions\<close>

text \<open>
  Deduplication as the specification words it: walking the list in order, an element is
  kept unless an earlier element has its key, so the first occurrence wins.
\<close>

definition dedupFirst :: "('a \<Rightarrow> 'k) \<Rightarrow> 'a list \<Rightarrow> 'a list" where
  "dedupFirst key xs = foldl (\<lambda>acc x. if key x \<in> key ` set acc then acc else acc @ [x]) [] xs"

text \<open>The last element of a list that has the key \<open>k\<close>.\<close>

definition lastWith :: "('a \<Rightarrow> 'k) \<Rightarrow> 'a list \<Rightarrow> 'k \<Rightarrow> 'a" where
  "lastWith key xs k = last (filter (\<lambda>y. key y = k) xs)"

definition eventKey :: "CalendarEvent \<Rightarrow> string" where
  "eventKey event = id' (base event)"

text \<open>
  A range and an event as half-open intervals, closed at the start and open at the end:
  an event with no end is the point at its start.
\<close>

definition overlapsHalfOpen :: "'a::linorder \<Rightarrow> 'a \<Rightarrow> 'a \<Rightarrow> 'a option \<Rightarrow> bool" where
  "overlapsHalfOpen S E s e =
     (case e of None \<Rightarrow> S \<le> s \<and> s < E | Some en \<Rightarrow> s < E \<and> S < en)"

text \<open>
  The same against a closed range, with the event still closed at its start and open at
  its end: the event starts at or before the end of the range and ends after the start of
  the range; an event with no end is the point at its start. An empty end string counts
  as no end.
\<close>

fun overlapsRange :: "int \<Rightarrow> int \<Rightarrow> string \<Rightarrow> string \<Rightarrow> CalendarEvent \<Rightarrow> bool" where
  "overlapsRange S E Siso Eiso (TimeBasedCalendarEvent b s e z1 z2) =
     (case e of None \<Rightarrow> S \<le> s \<and> s \<le> E | Some en \<Rightarrow> s \<le> E \<and> S < en)"
| "overlapsRange S E Siso Eiso (DateBasedCalendarEvent b s e) =
     (case e of
        None \<Rightarrow> Siso \<le> s \<and> s \<le> Eiso
      | Some en \<Rightarrow> if en = [] then Siso \<le> s \<and> s \<le> Eiso else s \<le> Eiso \<and> Siso < en)"

text \<open>The event has an end, and it is exactly the start of the range.\<close>

fun endsAtRangeStart :: "int \<Rightarrow> string \<Rightarrow> CalendarEvent \<Rightarrow> bool" where
  "endsAtRangeStart S Siso (TimeBasedCalendarEvent b s e z1 z2) = (e = Some S)"
| "endsAtRangeStart S Siso (DateBasedCalendarEvent b s e) = (e = Some Siso \<and> Siso \<noteq> [])"

text \<open>
  The calendar, counted by hand: the days of the years before year \<open>n\<close>, from year 0;
  a date that exists in the calendar; the number of days from 1 January 1970 to a date,
  through the whole years and the whole months before it. Unix time counts 86400 seconds
  a day from midnight UTC of 1 January 1970, so midnight UTC of a day is 86400 times its
  number.
\<close>

definition daysInYear :: "int \<Rightarrow> int" where
  "daysInYear y = (if isLeapYear y then 366 else 365)"

primrec daysBeforeYear :: "nat \<Rightarrow> int" where
  "daysBeforeYear 0 = 0"
| "daysBeforeYear (Suc n) = daysBeforeYear n + daysInYear (int n)"

definition realDate :: "int \<Rightarrow> int \<Rightarrow> int \<Rightarrow> bool" where
  "realDate y m dd =
     (0 \<le> y \<and> 1 \<le> m \<and> m \<le> 12 \<and> 1 \<le> dd \<and> dd \<le> monthLengths y ! nat (m - 1))"

definition calendarDay :: "int \<Rightarrow> int \<Rightarrow> int \<Rightarrow> int" where
  "calendarDay y m dd =
     daysBeforeYear (nat y) - daysBeforeYear 1970
       + sum_list (take (nat (m - 1)) (monthLengths y)) + (dd - 1)"

definition utcDayStart :: "string \<Rightarrow> int option" where
  "utcDayStart s =
     (case dateFields s of
        None \<Rightarrow> None
      | Some (y, m, dd) \<Rightarrow> if realDate y m dd then Some (86400 * calendarDay y m dd) else None)"

text \<open>
  The start of a calendar day for an observer whose local time is \<open>offsetSeconds\<close>
  ahead of UTC: local midnight is that many seconds before midnight UTC of the same
  date.
\<close>

definition localDayStart :: "int \<Rightarrow> string \<Rightarrow> int option" where
  "localDayStart offsetSeconds s = map_option (\<lambda>t. t - offsetSeconds) (utcDayStart s)"

text \<open>
  The round trip: the raw event that \<open>serializeCalendarEvent\<close> gives once the
  collaborator has added id, public key and creation time, and the domain object with
  those three fields and the raw tags put in, which is what a parse can at best return.
\<close>

definition rawOf ::
  "(int \<Rightarrow> string) \<Rightarrow> CalendarEvent \<Rightarrow> string \<Rightarrow> string \<Rightarrow> int \<Rightarrow> NostrEvent" where
  "rawOf beyond e i p c = mergeEvent (serializeCalendarEvent beyond e) i p c"

fun withWireFields ::
  "string \<Rightarrow> string \<Rightarrow> int \<Rightarrow> string option list list \<Rightarrow> CalendarEvent \<Rightarrow> CalendarEvent" where
  "withWireFields i p c ts (DateBasedCalendarEvent b s e) =
     DateBasedCalendarEvent (b\<lparr>id' := i, pubkey := p, created_at := c, tags := ts\<rparr>) s e"
| "withWireFields i p c ts (TimeBasedCalendarEvent b s e z1 z2) =
     TimeBasedCalendarEvent (b\<lparr>id' := i, pubkey := p, created_at := c, tags := ts\<rparr>) s e z1 z2"

text \<open>
  An optional string is either absent or not empty. A participant has no empty relay URL
  or role, and has a role only together with a relay URL. The start and the end of a
  time-based event are safe integers.
\<close>

definition nonEmptyOpt :: "string option \<Rightarrow> bool" where
  "nonEmptyOpt v = (v \<noteq> Some [])"

definition participantOk :: "ParticipantInfo \<Rightarrow> bool" where
  "participantOk p =
     (nonEmptyOpt (relayUrl p) \<and> nonEmptyOpt (role p) \<and> (relayUrl p = None \<longrightarrow> role p = None))"

definition baseOk :: "BaseCalendarEvent \<Rightarrow> bool" where
  "baseOk b =
     (nonEmptyOpt (summary b) \<and> nonEmptyOpt (image' b) \<and> nonEmptyOpt (geohash b)
      \<and> list_all participantOk (participants b))"

fun roundTripOk :: "CalendarEvent \<Rightarrow> bool" where
  "roundTripOk (DateBasedCalendarEvent b s e) = (baseOk b \<and> nonEmptyOpt e)"
| "roundTripOk (TimeBasedCalendarEvent b s e z1 z2) =
     (baseOk b \<and> nonEmptyOpt z1 \<and> nonEmptyOpt z2 \<and> isSafeInteger s
      \<and> (case e of None \<Rightarrow> True | Some n \<Rightarrow> isSafeInteger n))"

definition digitChar :: "nat \<Rightarrow> char" where
  "digitChar k = char_of (48 + k)"

section \<open>Example events\<close>

definition rawEvent :: "int \<Rightarrow> string list list \<Rightarrow> NostrEvent" where
  "rawEvent k ts =
     \<lparr>ev_id = ''id1'', ev_pubkey = ''pub1'', ev_kind = k, ev_created_at = 1717000000,
      ev_content = [], ev_tags = map tag_of ts\<rparr>"

definition rsvp_short_a :: NostrEvent where
  "rsvp_short_a = rawEvent 31925 [[''d'', ''r1''], [''status'', ''accepted''], [''a'']]"

definition rsvp_declined_busy :: NostrEvent where
  "rsvp_declined_busy =
     rawEvent 31925
       [[''a'', ''31923:pub1:ev1''], [''d'', ''r1''], [''status'', ''declined''], [''fb'', ''busy'']]"



definition date_event_bad_format :: NostrEvent where
  "date_event_bad_format =
     rawEvent 31922 [[''d'', ''abc''], [''title'', ''Meetup''], [''start'', ''June 1st'']]"

definition time_event_nonpositive :: NostrEvent where
  "time_event_nonpositive =
     rawEvent 31923 [[''d'', ''abc''], [''title'', ''Meetup''], [''start'', ''-5'']]"

definition time_event_end_not_after :: NostrEvent where
  "time_event_end_not_after =
     rawEvent 31923 [[''d'', ''abc''], [''title'', ''Meetup''], [''start'', ''1717200000''],
       [''end'', ''1717200000'']]"

definition time_event_bad_zone :: NostrEvent where
  "time_event_bad_zone =
     rawEvent 31923 [[''d'', ''abc''], [''title'', ''Meetup''], [''start'', ''1717200000''],
       [''start_tzid'', ''Mars/Olympus'']]"

definition rsvp_declined_with_freebusy :: CalendarEventRSVP where
  "rsvp_declined_with_freebusy =
     \<lparr>rsvp_id = [], rsvp_pubkey = ''pub2'', rsvp_created_at = 1717000000,
      rsvp_content = ''cannot come'', eventCoordinates = ''31923:pub1:ev1'',
      eventId = Some ''e1'', rsvp_d = ''r1'', status = Declined, freebusy = Some Busy,
      authorPubkey = None\<rparr>"

definition searchHit :: "string \<Rightarrow> string \<Rightarrow> CalendarEvent" where
  "searchHit i t =
     DateBasedCalendarEvent
       \<lparr>id' = i, pubkey = ''pub1'', created_at = 1717000000, content = [], tags = [],
        d = ''abc'', title = t, summary = None, image' = None, locations = [],
        geohash = None, participants = [], hashtags = [Some ''music''], references = [],
        calendarRefs = []\<rparr>
       ''2025-06-01'' None"

definition range_edge_event :: NostrEvent where
  "range_edge_event =
     rawEvent 31923 [[''d'', ''abc''], [''title'', ''Meetup''], [''start'', ''1717200000'']]"

definition date_event_june :: NostrEvent where
  "date_event_june =
     rawEvent 31922 [[''d'', ''abc''], [''title'', ''Meetup''], [''start'', ''2025-06-01''],
       [''end'', ''2025-06-03'']]"

definition dateEvent :: "string \<Rightarrow> CalendarEvent" where
  "dateEvent s = DateBasedCalendarEvent (base (searchHit ''id1'' ''Street fair'')) s None"

definition timeEvent :: "int \<Rightarrow> CalendarEvent" where
  "timeEvent t = TimeBasedCalendarEvent (base (searchHit ''id2'' ''Concert'')) t None None None"

text \<open>
  Two time-based events on a relay: \<open>eventA\<close> was created after \<open>eventB\<close> and
  starts after it. The clock reads 1717000000, the page size is the default 20.
\<close>

definition timeRaw :: "string \<Rightarrow> int \<Rightarrow> string \<Rightarrow> NostrEvent" where
  "timeRaw i c start =
     \<lparr>ev_id = i, ev_pubkey = ''pub1'', ev_kind = 31923, ev_created_at = c, ev_content = [],
      ev_tags = map tag_of [[''d'', i], [''title'', ''Meetup''], [''start'', start]]\<rparr>"

definition eventA :: NostrEvent where
  "eventA = timeRaw ''a'' 1716900000 ''1717300000''"

definition eventB :: NostrEvent where
  "eventB = timeRaw ''b'' 1716800000 ''1717200000''"

definition parsedA :: CalendarEvent where
  "parsedA = TimeBasedCalendarEvent (baseEvent eventA ''a'' ''Meetup'') 1717300000 None None None"

definition parsedB :: CalendarEvent where
  "parsedB = TimeBasedCalendarEvent (baseEvent eventB ''b'' ''Meetup'') 1717200000 None None None"

definition upcomingPageOf :: "NostrEvent list \<Rightarrow> int option \<Rightarrow> CalendarEvent list" where
  "upcomingPageOf store pageParam =
     upcomingQueryFn (\<lambda>z. True) (relayQuery store) 1717000000 ''2024-05-29'' 20 pageParam"

definition exampleBase :: BaseCalendarEvent where
  "exampleBase =
     \<lparr>id' = [], pubkey = ''pub1'', created_at = 1717000000, content = ''Bring a laptop'',
      tags = [], d = ''abc'', title = ''Meetup'', summary = Some ''Monthly meetup'',
      image' = None, locations = [Some ''Berlin'', Some ''online''], geohash = Some ''u33d'',
      participants =
        [\<lparr>participant_pubkey = Some ''pk1'', relayUrl = Some ''wss://relay.example'',
          role = Some ''host''\<rparr>,
         \<lparr>participant_pubkey = Some ''pk2'', relayUrl = None, role = None\<rparr>],
      hashtags = [Some ''nostr''], references = [Some ''https://example.org''],
      calendarRefs = [Some ''31924:pub1:cal'']\<rparr>"

definition event_full :: CalendarEvent where
  "event_full =
     TimeBasedCalendarEvent exampleBase 1717200000 (Some 1717207200)
       (Some ''Europe/Berlin'') None"

definition event_empty_summary :: CalendarEvent where
  "event_empty_summary =
     DateBasedCalendarEvent (exampleBase\<lparr>summary := Some [], participants := []\<rparr>)
       ''2025-06-01'' (Some ''2025-06-03'')"

definition participant_role_only :: ParticipantInfo where
  "participant_role_only =
     \<lparr>participant_pubkey = Some ''pk1'', relayUrl = None, role = Some ''host''\<rparr>"

text \<open>
  What the runtime prints for \<open>10^21\<close>, the one number beyond the safe integers that
  the examples use.
\<close>

definition beyondExample :: "int \<Rightarrow> string" where
  "beyondExample n = ''1e+21''"

definition event_huge_start :: CalendarEvent where
  "event_huge_start =
     TimeBasedCalendarEvent exampleBase 1000000000000000000000 None None None"


section \<open>Properties\<close>

lemmas tag_eval =
  rawEvent_def tag_of_def getTagValue_def getTagValues_def hasName_def at_index_def truthy_def

lemmas parseInt_eval =
  parseInt_def parseInt10_def parseDigits_def isWhiteSpace_def isDecDigit_def isHexDigit_def
  digitsValue_def digitValue_def

subsection \<open>The validators\<close>

text \<open>
  C3. The claim is that each of the three validators returns a boolean on every raw
  event and never throws. \<open>validateCalendarEvent\<close> and \<open>validateCalendar\<close> are total
  boolean functions, but \<open>validateCalendarEventRSVP\<close> throws a \<open>TypeError\<close> on the
  RSVP event whose \<open>a\<close> tag has no second element: it calls \<open>split\<close> on
  \<open>undefined\<close>.
\<close>

theorem validateCalendarEventRSVP_throws_on_short_a_tag:
  "validateCalendarEventRSVP rsvp_short_a = Inl TypeError"
  by (simp add: validateCalendarEventRSVP_def rsvp_short_a_def tag_eval)

theorem validateCalendarEventRSVP_throws_witness:
  "\<exists>event. ev_kind event = 31925 \<and> validateCalendarEventRSVP event = Inl TypeError"
proof -
  have "ev_kind rsvp_short_a = 31925"
    by (simp add: rsvp_short_a_def rawEvent_def)
  with validateCalendarEventRSVP_throws_on_short_a_tag show ?thesis by blast
qed

text \<open>
  C4. An event of kind 31925 whose status is \<open>declined\<close> and that carries any tag
  named \<open>fb\<close> is invalid, whatever the value of that tag: the validator returns false.
\<close>

theorem rsvp_declined_with_fb_invalid:
  assumes "ev_kind event = 31925"
    and "getTagValue event ''status'' = Some ''declined''"
    and "\<exists>tag \<in> set (ev_tags event). at_index tag 0 = Some ''fb''"
  shows "validateCalendarEventRSVP event = Inr False"
proof -
  from assms(3) have "find (hasName ''fb'') (ev_tags event) \<noteq> None"
    by (auto simp: find_None_iff hasName_def)
  with assms(2) show ?thesis
    by (simp add: validateCalendarEventRSVP_def Let_def split: option.splits)
qed

theorem rsvp_declined_with_fb_invalid_witness:
  "ev_kind rsvp_declined_busy = 31925
   \<and> getTagValue rsvp_declined_busy ''status'' = Some ''declined''
   \<and> (\<exists>tag \<in> set (ev_tags rsvp_declined_busy). at_index tag 0 = Some ''fb'')
   \<and> validateCalendarEventRSVP rsvp_declined_busy = Inr False"
proof -
  have k: "ev_kind rsvp_declined_busy = 31925"
    by (simp add: rsvp_declined_busy_def rawEvent_def)
  have s: "getTagValue rsvp_declined_busy ''status'' = Some ''declined''"
    by (simp add: rsvp_declined_busy_def tag_eval)
  have f: "\<exists>tag \<in> set (ev_tags rsvp_declined_busy). at_index tag 0 = Some ''fb''"
    by (simp add: rsvp_declined_busy_def tag_eval)
  from k s f rsvp_declined_with_fb_invalid [OF k s f] show ?thesis by blast
qed

subsection \<open>parseInt against the base-10 reading\<close>

lemma isDecDigit_zero: "isDecDigit CHR ''0''"
  by (simp add: isDecDigit_def)

lemma stripPrefix_cases:
  "stripPrefix s = (10, s) \<or> (\<exists>b cs. s = CHR ''0'' # b # cs \<and> stripPrefix s = (16, cs))"
  by (cases s rule: stripPrefix.cases) auto

text \<open>A string with no base-10 integer prefix is \<open>NaN\<close> for \<open>parseInt\<close> as well.\<close>

lemma parseInt10_None_imp: "parseInt10 s = None \<Longrightarrow> parseInt s = None"
proof -
  assume a: "parseInt10 s = None"
  obtain sign s1 where sp: "splitSign (dropWhile isWhiteSpace s) = (sign, s1)"
    by (cases "splitSign (dropWhile isWhiteSpace s)") auto
  from a sp have p10: "parseDigits sign 10 s1 = None"
    by (simp add: parseInt10_def)
  from stripPrefix_cases [of s1] show ?thesis
  proof
    assume "stripPrefix s1 = (10, s1)"
    with sp p10 show ?thesis by (simp add: parseInt_def)
  next
    assume "\<exists>b cs. s1 = CHR ''0'' # b # cs \<and> stripPrefix s1 = (16, cs)"
    then obtain b cs where "s1 = CHR ''0'' # b # cs" by blast
    with p10 have False
      by (simp add: parseDigits_def isDecDigit_zero)
    then show ?thesis ..
  qed
qed

lemma parseEnd_unparsable: "parseInt10 endStr = None \<Longrightarrow> parseEnd (Some endStr) = None"
  by (simp add: parseEnd_def parseInt10_None_imp truthy_def)

subsection \<open>parseCalendarEvent\<close>




subsection \<open>serializeCalendarRSVP\<close>

text \<open>
  C8. \<open>serializeCalendarRSVP\<close> gives a partial event of kind 31925 whose tags are, in
  this order: the \<open>a\<close> tag with the coordinates, \<open>d\<close>, \<open>status\<close>, then an \<open>e\<close>
  tag exactly when an event id was supplied, an \<open>fb\<close> tag exactly when a free/busy
  value was supplied and the status is not \<open>declined\<close> (so a free/busy value given
  with \<open>declined\<close> is left out, with no error), and a \<open>p\<close> tag exactly when the
  original author's key was supplied. A string is supplied when it is neither absent nor
  empty. The last conjunct states the order on the names alone.
\<close>

theorem serializeCalendarRSVP_tag_order:
  "part_kind (serializeCalendarRSVP rsvp) = 31925
   \<and> part_content (serializeCalendarRSVP rsvp) = rsvp_content rsvp
   \<and> part_tags (serializeCalendarRSVP rsvp) =
       [[Some ''a'', Some (eventCoordinates rsvp)],
        [Some ''d'', Some (rsvp_d rsvp)],
        [Some ''status'', Some (statusString (status rsvp))]]
       @ (if truthy (eventId rsvp) then [[Some ''e'', eventId rsvp]] else [])
       @ (if freebusy rsvp \<noteq> None \<and> status rsvp \<noteq> Declined
          then [[Some ''fb'', map_option freebusyString (freebusy rsvp)]] else [])
       @ (if truthy (authorPubkey rsvp) then [[Some ''p'', authorPubkey rsvp]] else [])
   \<and> map tagName (part_tags (serializeCalendarRSVP rsvp)) =
       filter (\<lambda>n. n = Some ''a'' \<or> n = Some ''d'' \<or> n = Some ''status''
                 \<or> (n = Some ''e'' \<and> truthy (eventId rsvp))
                 \<or> (n = Some ''fb'' \<and> freebusy rsvp \<noteq> None \<and> status rsvp \<noteq> Declined)
                 \<or> (n = Some ''p'' \<and> truthy (authorPubkey rsvp)))
         [Some ''a'', Some ''d'', Some ''status'', Some ''e'', Some ''fb'', Some ''p'']"
  by (cases "freebusy rsvp")
     (simp_all add: serializeCalendarRSVP_def optTag_def tagName_def at_index_def)

theorem serializeCalendarRSVP_tag_order_witness:
  "part_tags (serializeCalendarRSVP rsvp_declined_with_freebusy) =
     [[Some ''a'', Some ''31923:pub1:ev1''], [Some ''d'', Some ''r1''],
      [Some ''status'', Some ''declined''], [Some ''e'', Some ''e1'']]"
  using serializeCalendarRSVP_tag_order [of rsvp_declined_with_freebusy]
  by (simp add: rsvp_declined_with_freebusy_def truthy_def)

subsection \<open>parseCalendarEvent against the validator\<close>

lemma parse_Some_iff:
  "(\<exists>ev. parseCalendarEvent event = Some ev) \<longleftrightarrow>
     (ev_kind event = 31922 \<or> ev_kind event = 31923)
     \<and> truthy (getTagValue event ''d'') \<and> truthy (getTagValue event ''title'')
     \<and> truthy (getTagValue event ''start'')
     \<and> (ev_kind event = 31922
        \<or> (\<exists>s n. getTagValue event ''start'' = Some s \<and> parseInt s = Some n))"
  by (auto simp: parseCalendarEvent_def truthy_def split: option.splits)

lemma validate_imp_parse:
  "validateCalendarEvent tz event \<Longrightarrow> \<exists>ev. parseCalendarEvent event = Some ev"
  unfolding parse_Some_iff
  by (auto simp: validateCalendarEvent_def validateTimeBlock_def truthy_def
           split: option.splits if_splits)

lemma bad_format_parses:
  "\<not> validateCalendarEvent tz date_event_bad_format"
  "parseCalendarEvent date_event_bad_format \<noteq> None"
  by (simp_all add: date_event_bad_format_def validateCalendarEvent_def validateDateBlock_def
       dateRegex_def parseCalendarEvent_def tag_eval)

lemma nonpositive_parses:
  "\<not> validateCalendarEvent tz time_event_nonpositive"
  "parseCalendarEvent time_event_nonpositive \<noteq> None"
  by (simp_all add: time_event_nonpositive_def validateCalendarEvent_def validateTimeBlock_def
       parseCalendarEvent_def tag_eval parseInt_eval)

lemma end_not_after_parses:
  "\<not> validateCalendarEvent tz time_event_end_not_after"
  "parseCalendarEvent time_event_end_not_after \<noteq> None"
  by (simp_all add: time_event_end_not_after_def validateCalendarEvent_def
       validateTimeBlock_def parseCalendarEvent_def tag_eval parseInt_eval)

lemma bad_zone_parses:
  "\<not> tz ''Mars/Olympus'' \<Longrightarrow> \<not> validateCalendarEvent tz time_event_bad_zone"
  "parseCalendarEvent time_event_bad_zone \<noteq> None"
  by (simp_all add: time_event_bad_zone_def validateCalendarEvent_def validateTimeBlock_def
       parseCalendarEvent_def tag_eval parseInt_eval)

text \<open>
  C10. \<open>parseCalendarEvent\<close> enforces strictly less than the validator. It returns an
  event exactly when the kind is 31922 or 31923, \<open>d\<close>, \<open>title\<close> and \<open>start\<close> are
  present and, for kind 31923, \<open>parseInt\<close> of \<open>start\<close> is a number. Every event the
  validator accepts parses, and four events the validator rejects parse all the same: a
  date-based one whose start is not \<open>YYYY-MM-DD\<close>, a time-based one with a negative
  start, one whose end equals its start, and one with a time zone the runtime rejects.
\<close>

theorem parseCalendarEvent_weaker_than_validator:
  "((\<exists>ev. parseCalendarEvent event = Some ev) \<longleftrightarrow>
       (ev_kind event = 31922 \<or> ev_kind event = 31923)
       \<and> truthy (getTagValue event ''d'') \<and> truthy (getTagValue event ''title'')
       \<and> truthy (getTagValue event ''start'')
       \<and> (ev_kind event = 31922
          \<or> (\<exists>s n. getTagValue event ''start'' = Some s \<and> parseInt s = Some n)))
   \<and> (validateCalendarEvent tz event \<longrightarrow> (\<exists>ev. parseCalendarEvent event = Some ev))
   \<and> \<not> validateCalendarEvent tz date_event_bad_format
   \<and> parseCalendarEvent date_event_bad_format \<noteq> None
   \<and> \<not> validateCalendarEvent tz time_event_nonpositive
   \<and> parseCalendarEvent time_event_nonpositive \<noteq> None
   \<and> \<not> validateCalendarEvent tz time_event_end_not_after
   \<and> parseCalendarEvent time_event_end_not_after \<noteq> None
   \<and> (\<not> tz ''Mars/Olympus'' \<longrightarrow> \<not> validateCalendarEvent tz time_event_bad_zone)
   \<and> parseCalendarEvent time_event_bad_zone \<noteq> None"
  using parse_Some_iff [of event] validate_imp_parse [of tz event]
    bad_format_parses nonpositive_parses end_not_after_parses bad_zone_parses
  by blast

theorem parseCalendarEvent_weaker_than_validator_witness:
  "(\<exists>ev. parseCalendarEvent time_event_nonpositive = Some ev)
   \<and> \<not> validateCalendarEvent (\<lambda>z. z = ''Europe/Berlin'') time_event_nonpositive
   \<and> \<not> validateCalendarEvent (\<lambda>z. z = ''Europe/Berlin'') time_event_bad_zone
   \<and> parseCalendarEvent time_event_bad_zone \<noteq> None"
  using parseCalendarEvent_weaker_than_validator
          [of time_event_nonpositive "\<lambda>z. z = ''Europe/Berlin''"]
  by auto

subsection \<open>Deduplication of search results\<close>

lemma dedupFirst_snoc:
  "dedupFirst key (xs @ [x]) =
     (if key x \<in> key ` set (dedupFirst key xs) then dedupFirst key xs
      else dedupFirst key xs @ [x])"
  by (simp add: dedupFirst_def)

lemma dedupFirst_Nil: "dedupFirst key [] = []"
  by (simp add: dedupFirst_def)

lemma set_dedupFirst_keys: "key ` set (dedupFirst key xs) = key ` set xs"
  by (induction xs rule: rev_induct) (auto simp: dedupFirst_snoc dedupFirst_Nil)

lemma set_dedupFirst_subset: "set (dedupFirst key xs) \<subseteq> set xs"
  by (induction xs rule: rev_induct) (auto simp: dedupFirst_snoc dedupFirst_Nil)

lemma distinct_dedupFirst: "distinct (map key (dedupFirst key xs))"
  by (induction xs rule: rev_induct) (auto simp: dedupFirst_snoc dedupFirst_Nil)

text \<open>\<open>set\<close> on a map whose keys are distinct: replace in place, or append.\<close>

lemma mapSet_keyed:
  "distinct (map key ys) \<Longrightarrow>
   mapSet (map (\<lambda>y. (key y, f y)) ys) k v =
     (if k \<in> key ` set ys then map (\<lambda>y. (key y, if key y = k then v else f y)) ys
      else map (\<lambda>y. (key y, f y)) ys @ [(k, v)])"
  by (induction ys) (auto simp: image_iff)

lemma newMap_snoc: "newMap (es @ [(k, v)]) = mapSet (newMap es) k v"
  by (simp add: newMap_def)

lemma newMap_keyed:
  "newMap (map (\<lambda>x. (key x, x)) xs) =
     map (\<lambda>y. (key y, lastWith key xs (key y))) (dedupFirst key xs)"
proof (induction xs rule: rev_induct)
  case Nil
  show ?case by (simp add: newMap_def dedupFirst_Nil)
next
  case (snoc x xs)
  have d: "distinct (map key (dedupFirst key xs))" by (rule distinct_dedupFirst)
  have l: "\<And>k. lastWith key (xs @ [x]) k = (if key x = k then x else lastWith key xs k)"
    by (simp add: lastWith_def)
  show ?case
    using snoc.IH
    by (simp add: newMap_snoc mapSet_keyed [OF d] dedupFirst_snoc l set_dedupFirst_keys)
       (use set_dedupFirst_subset [of key xs] in \<open>auto simp: set_dedupFirst_keys\<close>)
qed

lemma uniqueEvents_char:
  "uniqueEvents xs = map (\<lambda>y. lastWith eventKey xs (eventKey y)) (dedupFirst eventKey xs)"
  using newMap_keyed [of eventKey xs]
  by (simp add: uniqueEvents_def eventKey_def [abs_def] comp_def)

lemma lastWith_key:
  assumes "k \<in> key ` set xs"
  shows "key (lastWith key xs k) = k \<and> lastWith key xs k \<in> set xs"
proof -
  from assms have ne: "filter (\<lambda>y. key y = k) xs \<noteq> []"
    by (auto simp: filter_empty_conv)
  from last_in_set [OF ne] show ?thesis by (simp add: lastWith_def)
qed

lemma map_key_uniqueEvents:
  "map eventKey (uniqueEvents xs) = map eventKey (dedupFirst eventKey xs)"
proof -
  have "\<And>y. y \<in> set (dedupFirst eventKey xs)
          \<Longrightarrow> eventKey (lastWith eventKey xs (eventKey y)) = eventKey y"
    using lastWith_key [of _ eventKey xs] set_dedupFirst_subset [of eventKey xs] by blast
  then show ?thesis by (simp add: uniqueEvents_char)
qed

lemma uniqueEvents_first_wins:
  assumes "\<forall>x \<in> set xs. \<forall>y \<in> set xs. eventKey x = eventKey y \<longrightarrow> x = y"
  shows "uniqueEvents xs = dedupFirst eventKey xs"
proof -
  have "\<And>y. y \<in> set (dedupFirst eventKey xs) \<Longrightarrow> lastWith eventKey xs (eventKey y) = y"
  proof -
    fix y assume "y \<in> set (dedupFirst eventKey xs)"
    then have y: "y \<in> set xs" using set_dedupFirst_subset [of eventKey xs] by blast
    then have "eventKey y \<in> eventKey ` set xs" by blast
    from lastWith_key [OF this] y assms show "lastWith eventKey xs (eventKey y) = y"
      by blast
  qed
  then show ?thesis by (simp add: uniqueEvents_char map_idI)
qed

lemma parse_id: "parseCalendarEvent raw = Some ev \<Longrightarrow> id' (base ev) = ev_id raw"
  by (auto simp: parseCalendarEvent_def baseEvent_def split: option.splits if_splits)

lemma parse_eventA: "parseCalendarEvent eventA = Some parsedA"
  by (simp add: eventA_def timeRaw_def parsedA_def parseCalendarEvent_def parseEnd_def
        tag_of_def getTagValue_def hasName_def at_index_def truthy_def parseInt_eval)

lemma parse_eventB: "parseCalendarEvent eventB = Some parsedB"
  by (simp add: eventB_def timeRaw_def parsedB_def parseCalendarEvent_def parseEnd_def
        tag_of_def getTagValue_def hasName_def at_index_def truthy_def parseInt_eval)

text \<open>
  C9. The two result sets of a search hold parses of events of the relay, and on a relay
  the id identifies the event: it is the hash of the event. Combining such result sets
  gives the hashtag results followed by the substring results, deduplicated by event id
  with the first occurrence winning and the order kept, and each event id of the two sets
  occurs in it exactly once.
\<close>

theorem combineSearchResults_dedup:
  assumes "inj_on ev_id R"
    and "\<forall>ev \<in> set hashtagEvents \<union> set parsedEvents.
           \<exists>raw \<in> R. parseCalendarEvent raw = Some ev"
  shows "combineSearchResults hashtagEvents parsedEvents
           = dedupFirst eventKey (hashtagEvents @ parsedEvents)
       \<and> distinct (map eventKey (combineSearchResults hashtagEvents parsedEvents))
       \<and> set (map eventKey (combineSearchResults hashtagEvents parsedEvents))
           = eventKey ` (set hashtagEvents \<union> set parsedEvents)"
proof -
  let ?xs = "hashtagEvents @ parsedEvents"
  have same: "\<forall>x \<in> set ?xs. \<forall>y \<in> set ?xs. eventKey x = eventKey y \<longrightarrow> x = y"
  proof (intro ballI impI)
    fix x y
    assume x: "x \<in> set ?xs" and y: "y \<in> set ?xs" and k: "eventKey x = eventKey y"
    from x assms(2) obtain rx where rx: "rx \<in> R" "parseCalendarEvent rx = Some x" by auto
    from y assms(2) obtain ry where ry: "ry \<in> R" "parseCalendarEvent ry = Some y" by auto
    from k rx ry have "ev_id rx = ev_id ry"
      using parse_id [of rx x] parse_id [of ry y] by (simp add: eventKey_def)
    with assms(1) rx ry have "rx = ry" by (auto dest: inj_onD)
    with rx ry show "x = y" by simp
  qed
  have 1: "uniqueEvents ?xs = dedupFirst eventKey ?xs"
    using same by (rule uniqueEvents_first_wins)
  have 2: "distinct (map eventKey (dedupFirst eventKey ?xs))"
    by (rule distinct_dedupFirst)
  have 3: "set (map eventKey (dedupFirst eventKey ?xs))
             = eventKey ` (set hashtagEvents \<union> set parsedEvents)"
    using set_dedupFirst_keys [of eventKey ?xs] by simp
  from 1 2 3 show ?thesis by (simp add: combineSearchResults_def)
qed

theorem combineSearchResults_dedup_witness:
  "combineSearchResults [parsedB] [parsedA, parsedB] = [parsedB, parsedA]"
proof -
  have i: "inj_on ev_id {eventA, eventB}"
    by (simp add: eventA_def eventB_def timeRaw_def)
  have p: "\<forall>ev \<in> set [parsedB] \<union> set [parsedA, parsedB].
             \<exists>raw \<in> {eventA, eventB}. parseCalendarEvent raw = Some ev"
    by (simp add: parse_eventA parse_eventB)
  have ne: "eventKey parsedA \<noteq> eventKey parsedB"
    by (simp add: eventKey_def parsedA_def parsedB_def baseEvent_def eventA_def eventB_def
          timeRaw_def)
  have dd: "dedupFirst eventKey ([parsedB] @ [parsedA, parsedB]) = [parsedB, parsedA]"
    using ne by (auto simp: dedupFirst_def)
  from combineSearchResults_dedup [OF i p]
  have "combineSearchResults [parsedB] [parsedA, parsedB]
          = dedupFirst eventKey ([parsedB] @ [parsedA, parsedB])" by blast
  then show ?thesis unfolding dd .
qed

subsection \<open>Events by date range\<close>

lemma set_map_filter_eq:
  "set (List.map_filter f xs) = {y. \<exists>x \<in> set xs. f x = Some y}"
  by (induction xs) (auto split: option.splits)

lemma set_validParsed:
  "set (validParsed tz events) =
     {ev. \<exists>raw \<in> set events. validateCalendarEvent tz raw \<and> parseCalendarEvent raw = Some ev}"
  by (auto simp: validParsed_def set_map_filter_eq)

lemma parseEnd_nonzero: "parseEnd v \<noteq> Some 0"
  by (simp add: parseEnd_def split: option.splits)

lemma parsed_time_end_nonzero:
  "parseCalendarEvent raw = Some (TimeBasedCalendarEvent b s e z1 z2) \<Longrightarrow> e \<noteq> Some 0"
  by (auto simp: parseCalendarEvent_def parseEnd_nonzero split: option.splits if_splits)

lemma Nil_less_string: "x \<noteq> [] \<Longrightarrow> [] < (x :: string)"
  by (cases x) simp_all

lemma inDateRange_overlapsRange:
  "parseCalendarEvent raw = Some ev \<Longrightarrow> \<not> endsAtRangeStart S Siso ev \<Longrightarrow>
   inDateRange S E Siso Eiso ev = overlapsRange S E Siso Eiso ev"
  by (cases ev) (auto dest: parsed_time_end_nonzero simp: Nil_less_string split: option.splits)

lemma half_open_meets_closed:
  fixes lo hi S E :: "'a::linorder"
  assumes "lo < hi" "S \<le> E"
  shows "{lo..<hi} \<inter> {S..E} \<noteq> {} \<longleftrightarrow> lo \<le> E \<and> S < hi"
proof
  assume "{lo..<hi} \<inter> {S..E} \<noteq> {}"
  then obtain x where "x \<in> {lo..<hi} \<inter> {S..E}" by blast
  then have "lo \<le> x" "x < hi" "S \<le> x" "x \<le> E" by simp_all
  then show "lo \<le> E \<and> S < hi" by (meson order_trans le_less_trans)
next
  assume a: "lo \<le> E \<and> S < hi"
  with assms have "max lo S \<in> {lo..<hi} \<inter> {S..E}" by (auto simp: max_def)
  then show "{lo..<hi} \<inter> {S..E} \<noteq> {}" by blast
qed

text \<open>A validated event with an end ends after it starts.\<close>

lemma validated_time_order:
  assumes "validateCalendarEvent tz raw"
    and "parseCalendarEvent raw = Some (TimeBasedCalendarEvent b s (Some en) z1 z2)"
  shows "s < en"
  using assms
  by (auto simp: validateCalendarEvent_def validateTimeBlock_def parseCalendarEvent_def
        parseEnd_def truthy_def split: option.splits if_splits)

lemma validated_date_order:
  assumes "validateCalendarEvent tz raw"
    and "parseCalendarEvent raw = Some (DateBasedCalendarEvent b s (Some en))"
    and "en \<noteq> []"
  shows "s < en"
  using assms
  by (auto simp: validateCalendarEvent_def validateDateBlock_def parseCalendarEvent_def
        truthy_def split: option.splits if_splits)

lemma edge_parsed:
  "validParsed (\<lambda>z. True) [range_edge_event] =
     [TimeBasedCalendarEvent (baseEvent range_edge_event ''abc'' ''Meetup'')
        1717200000 None None None]"
  by (simp add: validParsed_def range_edge_event_def validateCalendarEvent_def
        validateTimeBlock_def parseCalendarEvent_def parseEnd_def tag_eval parseInt_eval)

lemma june_parsed:
  "validParsed tz [date_event_june] =
     [DateBasedCalendarEvent (baseEvent date_event_june ''abc'' ''Meetup'')
        ''2025-06-01'' (Some ''2025-06-03'')]"
  by (simp add: validParsed_def date_event_june_def validateCalendarEvent_def
        validateDateBlock_def dateRegex_def isDecDigit_def parseCalendarEvent_def tag_eval)

text \<open>
  C7 as stated: the filter keeps exactly the events that overlap the half-open range.
  The range is not open at its end: a time-based event with no end that starts exactly
  at the end of the range is kept, and the half-open range does not contain that instant.
\<close>

theorem eventsByDateRange_half_open_counterexample:
  "(\<exists>b. eventsByDateRange (\<lambda>z. True) [range_edge_event] 1717113600 1717200000
           ''2024-05-31'' ''2024-06-01''
         = [TimeBasedCalendarEvent b 1717200000 None None None])
   \<and> \<not> overlapsHalfOpen (1717113600 :: int) 1717200000 1717200000 None"
  by (simp add: eventsByDateRange_def edge_parsed overlapsHalfOpen_def)

text \<open>
  C7 as amended. The range is closed at both ends, and an event runs from its start up to
  but not including its end, or is the point at its start when it has no end. Among the
  validated and parsed events that do not end exactly at the start of the range, the
  filter keeps, in order, exactly those that overlap the range: a time-based event by the
  test on the timestamps, a date-based event by the identical test on the date strings.
  For a range that does not end before it starts, the test says that the half-open
  interval of the event, or its point, meets the closed range. Nothing is said of an
  event whose end is exactly the start of the range.
\<close>

theorem eventsByDateRange_closed_range:
  "filter (\<lambda>ev. \<not> endsAtRangeStart S Siso ev) (eventsByDateRange tz events S E Siso Eiso) =
     filter (\<lambda>ev. \<not> endsAtRangeStart S Siso ev \<and> overlapsRange S E Siso Eiso ev)
       (validParsed tz events)
   \<and> (\<forall>ev \<in> set (validParsed tz events).
        S \<le> E \<and> Siso \<le> Eiso \<longrightarrow>
        (overlapsRange S E Siso Eiso ev \<longleftrightarrow>
           (case ev of
              TimeBasedCalendarEvent b s e z1 z2 \<Rightarrow>
                (case e of None \<Rightarrow> s \<in> {S..E} | Some en \<Rightarrow> {s..<en} \<inter> {S..E} \<noteq> {})
            | DateBasedCalendarEvent b s e \<Rightarrow>
                (case e of
                   None \<Rightarrow> s \<in> {Siso..Eiso}
                 | Some en \<Rightarrow>
                     if en = [] then s \<in> {Siso..Eiso}
                     else {s..<en} \<inter> {Siso..Eiso} \<noteq> {}))))"
proof (intro conjI ballI impI)
  have "filter (\<lambda>ev. \<not> endsAtRangeStart S Siso ev)
          (filter (inDateRange S E Siso Eiso) (validParsed tz events)) =
        filter (\<lambda>ev. \<not> endsAtRangeStart S Siso ev \<and> overlapsRange S E Siso Eiso ev)
          (validParsed tz events)"
    unfolding filter_filter
    by (rule filter_cong) (auto simp: set_validParsed inDateRange_overlapsRange)
  then show "filter (\<lambda>ev. \<not> endsAtRangeStart S Siso ev)
               (eventsByDateRange tz events S E Siso Eiso) =
             filter (\<lambda>ev. \<not> endsAtRangeStart S Siso ev \<and> overlapsRange S E Siso Eiso ev)
               (validParsed tz events)"
    by (simp add: eventsByDateRange_def)
next
  fix ev
  assume ev: "ev \<in> set (validParsed tz events)" and r: "S \<le> E \<and> Siso \<le> Eiso"
  from ev obtain raw where v: "validateCalendarEvent tz raw"
    and p: "parseCalendarEvent raw = Some ev"
    by (auto simp: set_validParsed)
  show "overlapsRange S E Siso Eiso ev \<longleftrightarrow>
          (case ev of
             TimeBasedCalendarEvent b s e z1 z2 \<Rightarrow>
               (case e of None \<Rightarrow> s \<in> {S..E} | Some en \<Rightarrow> {s..<en} \<inter> {S..E} \<noteq> {})
           | DateBasedCalendarEvent b s e \<Rightarrow>
               (case e of
                  None \<Rightarrow> s \<in> {Siso..Eiso}
                | Some en \<Rightarrow>
                    if en = [] then s \<in> {Siso..Eiso}
                    else {s..<en} \<inter> {Siso..Eiso} \<noteq> {}))"
  proof (cases ev)
    case (TimeBasedCalendarEvent b s e z1 z2)
    show ?thesis
    proof (cases e)
      case None
      with TimeBasedCalendarEvent show ?thesis by simp
    next
      case (Some en)
      with v p TimeBasedCalendarEvent have "s < en"
        using validated_time_order by blast
      from half_open_meets_closed [OF this] r TimeBasedCalendarEvent Some
      show ?thesis by simp
    qed
  next
    case (DateBasedCalendarEvent b s e)
    show ?thesis
    proof (cases e)
      case None
      with DateBasedCalendarEvent show ?thesis by simp
    next
      case (Some en)
      show ?thesis
      proof (cases "en = []")
        case True
        with DateBasedCalendarEvent Some show ?thesis by simp
      next
        case False
        with v p DateBasedCalendarEvent Some have "s < en"
          using validated_date_order by blast
        from half_open_meets_closed [OF this] r DateBasedCalendarEvent Some False
        show ?thesis by simp
      qed
    qed
  qed
qed

theorem eventsByDateRange_closed_range_witness:
  "eventsByDateRange (\<lambda>z. True) [range_edge_event, date_event_june]
       1717113600 1717200000 ''2024-05-31'' ''2024-06-01''
     = [TimeBasedCalendarEvent (baseEvent range_edge_event ''abc'' ''Meetup'')
          1717200000 None None None]"
proof -
  let ?evs = "[range_edge_event, date_event_june]"
  have vp: "validParsed (\<lambda>z. True) ?evs =
          validParsed (\<lambda>z. True) [range_edge_event] @ validParsed (\<lambda>z. True) [date_event_june]"
    by (simp add: validParsed_def List.map_filter_def)
  have sub: "\<forall>ev \<in> set (eventsByDateRange (\<lambda>z. True) ?evs
                 1717113600 1717200000 ''2024-05-31'' ''2024-06-01'').
               \<not> endsAtRangeStart 1717113600 ''2024-05-31'' ev"
    by (simp add: eventsByDateRange_def vp edge_parsed june_parsed)
  have "filter (\<lambda>ev. \<not> endsAtRangeStart 1717113600 ''2024-05-31'' ev)
          (eventsByDateRange (\<lambda>z. True) ?evs 1717113600 1717200000 ''2024-05-31'' ''2024-06-01'')
        = eventsByDateRange (\<lambda>z. True) ?evs 1717113600 1717200000 ''2024-05-31'' ''2024-06-01''"
    using sub by (simp add: filter_id_conv)
  then show ?thesis
    using eventsByDateRange_closed_range
            [of 1717113600 "''2024-05-31''" "\<lambda>z. True" ?evs 1717200000 "''2024-06-01''"]
    by (simp add: vp edge_parsed june_parsed)
qed

subsection \<open>The comparator of the upcoming events\<close>

lemma div_succ:
  fixes a k :: int
  assumes "0 < k"
  shows "(a + 1) div k = a div k + (if (a + 1) mod k = 0 then 1 else 0)"
proof -
  define q where "q = a div k"
  define r where "r = a mod k"
  have a: "a = k * q + r" by (simp add: q_def r_def)
  have r: "0 \<le> r" "r < k" using assms by (simp_all add: r_def)
  show ?thesis
  proof (cases "r + 1 < k")
    case True
    have e: "a + 1 = k * q + (r + 1)" using a by simp
    have "(a + 1) div k = q" using e r True by (intro int_div_pos_eq [of _ _ _ "r + 1"]) auto
    moreover have "(a + 1) mod k = r + 1"
      using e r True by (intro int_mod_pos_eq [of _ _ q]) auto
    ultimately show ?thesis using r by (simp add: q_def)
  next
    case False
    with r have k: "r + 1 = k" by simp
    have e: "a + 1 = k * (q + 1) + 0" using a k by (simp add: algebra_simps)
    have "(a + 1) div k = q + 1" using e assms by (intro int_div_pos_eq [of _ _ _ 0]) auto
    moreover have "(a + 1) mod k = 0"
      using e assms by (intro int_mod_pos_eq [of _ _ "q + 1"]) auto
    ultimately show ?thesis by (simp add: q_def)
  qed
qed

text \<open>The day number of 1 January grows by the length of the year.\<close>

lemma dayFromYear_next: "dayFromYear (y + 1) = dayFromYear y + daysInYear y"
proof -
  have 4: "(y - 1968) div 4 = (y - 1969) div 4 + (if y mod 4 = 0 then 1 else 0)"
  proof -
    have m: "(y - 1969 + 1) mod 4 = y mod 4" by algebra
    show ?thesis using div_succ [of 4 "y - 1969"] unfolding m by simp
  qed
  have 100: "(y - 1900) div 100 = (y - 1901) div 100 + (if y mod 100 = 0 then 1 else 0)"
  proof -
    have m: "(y - 1901 + 1) mod 100 = y mod 100" by algebra
    show ?thesis using div_succ [of 100 "y - 1901"] unfolding m by simp
  qed
  have 400: "(y - 1600) div 400 = (y - 1601) div 400 + (if y mod 400 = 0 then 1 else 0)"
  proof -
    have m: "(y - 1601 + 1) mod 400 = y mod 400" by algebra
    show ?thesis using div_succ [of 400 "y - 1601"] unfolding m by simp
  qed
  have "(100::int) dvd 400" "(4::int) dvd 100" by simp_all
  then have d: "y mod 400 = 0 \<Longrightarrow> y mod 100 = 0" "y mod 100 = 0 \<Longrightarrow> y mod 4 = 0"
    by (auto simp: mod_eq_0_iff_dvd elim: dvd_trans)
  define A where "A = (y - 1969) div 4"
  define B where "B = (y - 1901) div 100"
  define C where "C = (y - 1601) div 400"
  have s: "y + 1 - 1969 = y - 1968" "y + 1 - 1901 = y - 1900" "y + 1 - 1601 = y - 1600"
    "y + 1 - 1970 = y - 1970 + 1"
    by simp_all
  have L: "dayFromYear (y + 1) =
             365 * (y - 1970 + 1) + (A + (if y mod 4 = 0 then 1 else 0))
               - (B + (if y mod 100 = 0 then 1 else 0)) + (C + (if y mod 400 = 0 then 1 else 0))"
    unfolding dayFromYear_def s 4 100 400 A_def B_def C_def ..
  have R: "dayFromYear y = 365 * (y - 1970) + A - B + C"
    unfolding dayFromYear_def A_def B_def C_def ..
  show ?thesis
    unfolding L R daysInYear_def isLeapYear_def
    using d
    by (cases "y mod 4 = 0"; cases "y mod 100 = 0"; cases "y mod 400 = 0")
       (simp_all add: algebra_simps)
qed

lemma dayFromYear_count: "dayFromYear (int n) = dayFromYear 0 + daysBeforeYear n"
proof (induction n)
  case 0
  show ?case by simp
next
  case (Suc n)
  have "dayFromYear (int (Suc n)) = dayFromYear (int n + 1)" by (simp add: add.commute)
  with Suc dayFromYear_next [of "int n"] show ?case by simp
qed

text \<open>
  The closed formula of the standard counts the days of the calendar: the day number of
  1 January of a year is the number of days of the years from 1970 up to it.
\<close>

lemma dayFromYear_calendar:
  assumes "0 \<le> y"
  shows "dayFromYear y = daysBeforeYear (nat y) - daysBeforeYear 1970"
proof -
  have "dayFromYear (int 1970) = 0" by (simp add: dayFromYear_def)
  with dayFromYear_count [of 1970] have "dayFromYear 0 = - daysBeforeYear 1970" by simp
  with dayFromYear_count [of "nat y"] assms show ?thesis by simp
qed

lemma monthLengths_le_31:
  assumes "1 \<le> m" "m \<le> 12"
  shows "monthLengths y ! nat (m - 1) \<le> 31"
proof -
  from assms have "m \<in> {1, 2, 3, 4, 5, 6, 7, 8, 9, 10, 11, 12}" by simp presburger
  then show ?thesis by (auto simp: monthLengths_def)
qed

text \<open>On a date of the calendar the runtime gives midnight UTC of that day.\<close>

lemma dateGetTimeSeconds_utcDayStart:
  assumes "utcDayStart s = Some t0"
  shows "dateGetTimeSeconds s = Some t0"
proof -
  from assms obtain y m dd where f: "dateFields s = Some (y, m, dd)"
    and r: "realDate y m dd" and t: "t0 = 86400 * calendarDay y m dd"
    by (auto simp: utcDayStart_def split: option.splits if_splits)
  from r have y: "0 \<le> y" and m: "1 \<le> m" "m \<le> 12" and d: "1 \<le> dd"
    and dm: "dd \<le> monthLengths y ! nat (m - 1)"
    by (simp_all add: realDate_def)
  from dm monthLengths_le_31 [OF m, of y] have "dd \<le> 31" by simp
  with m d have "dayFromDate y m dd =
      Some (dayFromYear y + sum_list (take (nat (m - 1)) (monthLengths y)) + dd - 1)"
    by (simp add: dayFromDate_def)
  with f t dayFromYear_calendar [OF y] show ?thesis
    by (simp add: dateGetTimeSeconds_def calendarDay_def)
qed

lemma dateFields_june1: "dateFields ''2025-06-01'' = Some (2025, 6, 1)"
  by (simp add: dateFields_def dateRegex_def isDecDigit_def digitsValue_def digitValue_def)

lemma utcDayStart_june1: "utcDayStart ''2025-06-01'' = Some 1748736000"
proof -
  have r: "realDate 2025 6 1"
    by (simp add: realDate_def monthLengths_def isLeapYear_def)
  have "calendarDay 2025 6 1 = dayFromYear 2025 + sum_list (take 5 (monthLengths 2025))"
    using dayFromYear_calendar [of 2025] by (simp add: calendarDay_def)
  also have "\<dots> = 20240"
    by (simp add: dayFromYear_def monthLengths_def isLeapYear_def)
  finally show ?thesis using r by (simp add: utcDayStart_def dateFields_june1)
qed

text \<open>
  C6 as stated: a date-based event is compared to a time-based one through the start of
  its day in the observer's local time zone. For an observer two hours ahead of UTC, the
  day 2025-06-01 starts at 1748728800, an hour before a time-based event at 1748732400;
  the comparator places the date-based event an hour after it.
\<close>

theorem upcomingCompare_local_zone_counterexample:
  "upcomingCompare (dateEvent ''2025-06-01'') (timeEvent 1748732400) = Some 3600
   \<and> map_option (\<lambda>aDate. aDate - 1748732400) (localDayStart 7200 ''2025-06-01'')
       = Some (- 3600)"
  using dateGetTimeSeconds_utcDayStart [OF utcDayStart_june1]
  by (simp add: dateEvent_def timeEvent_def localDayStart_def utcDayStart_june1)

text \<open>
  C6 as amended. When a date-based event whose start is a date of the calendar is
  compared to a time-based one, in either order, the start date is converted to the Unix
  timestamp of midnight UTC of that calendar day, whatever the observer's zone, and
  compared numerically with the time-based start. Against the local start of the day for
  an observer at offset \<open>off\<close>, the comparator is \<open>off\<close> seconds later.
\<close>

theorem upcomingCompare_mixed_utc:
  assumes "utcDayStart s = Some t0"
  shows "upcomingCompare (DateBasedCalendarEvent b s e) (TimeBasedCalendarEvent b' t e' z1 z2)
           = Some (t0 - t)
       \<and> upcomingCompare (TimeBasedCalendarEvent b' t e' z1 z2) (DateBasedCalendarEvent b s e)
           = Some (t - t0)
       \<and> (\<forall>off v. localDayStart off s = Some v \<longrightarrow>
             upcomingCompare (DateBasedCalendarEvent b s e)
               (TimeBasedCalendarEvent b' t e' z1 z2) = Some (v + off - t))"
  using dateGetTimeSeconds_utcDayStart [OF assms] assms
  by (auto simp: localDayStart_def)

theorem upcomingCompare_mixed_utc_witness:
  "utcDayStart ''2025-06-01'' = Some 1748736000
   \<and> upcomingCompare (dateEvent ''2025-06-01'') (timeEvent 1748732400) = Some 3600"
proof -
  from upcomingCompare_mixed_utc [OF utcDayStart_june1]
  have "upcomingCompare (dateEvent ''2025-06-01'') (timeEvent 1748732400)
          = Some (1748736000 - 1748732400)"
    unfolding dateEvent_def timeEvent_def by blast
  with utcDayStart_june1 show ?thesis by simp
qed

subsection \<open>Pagination of the upcoming events\<close>

lemma query_first_page:
  "relayQuery [eventB, eventA] \<lparr>kinds = [31923], limit = 20, until = None\<rparr> = [eventA, eventB]"
  by (simp add: relayQuery_def matchesFilter_def eventA_def eventB_def timeRaw_def)

lemma query_date_based:
  "relayQuery [eventB, eventA] \<lparr>kinds = [31922], limit = 20, until = c\<rparr> = []"
  by (simp add: relayQuery_def matchesFilter_def eventA_def eventB_def timeRaw_def)

lemma query_second_page:
  "relayQuery [eventB, eventA] \<lparr>kinds = [31923], limit = 20, until = Some 1716899999\<rparr>
     = [eventB]"
  by (simp add: relayQuery_def matchesFilter_def eventA_def eventB_def timeRaw_def)

lemma validParsed_eventA: "validParsed (\<lambda>z. True) [eventA] = [parsedA]"
  by (simp add: validParsed_def eventA_def timeRaw_def parsedA_def validateCalendarEvent_def
        validateTimeBlock_def parseCalendarEvent_def parseEnd_def tag_of_def getTagValue_def
        hasName_def at_index_def truthy_def parseInt_eval)

lemma validParsed_eventB: "validParsed (\<lambda>z. True) [eventB] = [parsedB]"
  by (simp add: validParsed_def eventB_def timeRaw_def parsedB_def validateCalendarEvent_def
        validateTimeBlock_def parseCalendarEvent_def parseEnd_def tag_of_def getTagValue_def
        hasName_def at_index_def truthy_def parseInt_eval)

lemma validParsed_append:
  "validParsed tz (xs @ ys) = validParsed tz xs @ validParsed tz ys"
  by (simp add: validParsed_def List.map_filter_def)

lemma validParsed_eventAB: "validParsed (\<lambda>z. True) [eventA, eventB] = [parsedA, parsedB]"
  using validParsed_append [of "\<lambda>z. True" "[eventA]" "[eventB]"]
  by (simp add: validParsed_eventA validParsed_eventB)

text \<open>
  C2. The claim is that a chain of page calls, each with the cursor returned for the page
  before, never returns an event twice. The cursor is the creation time of the last item
  of a page that is sorted by start, not by creation time. On the relay holding the two
  events, the first page is \<open>eventB\<close>, \<open>eventA\<close> in order of start, the cursor is
  the creation time of \<open>eventA\<close> minus one, and the second page holds \<open>eventB\<close>
  again, which is older.
\<close>

theorem upcoming_pagination_repeats_event:
  "upcomingPageOf [eventB, eventA] None = [parsedB, parsedA]
   \<and> getNextPageParam [parsedB, parsedA] = Some 1716899999
   \<and> upcomingPageOf [eventB, eventA] (Some 1716899999) = [parsedB]"
proof -
  have 1: "upcomingPageOf [eventB, eventA] None = [parsedB, parsedA]"
    by (simp add: upcomingPageOf_def upcomingQueryFn_def query_first_page query_date_based
          validParsed_eventAB sortBy_def)
       (simp add: parsedA_def parsedB_def)
  have 2: "getNextPageParam [parsedB, parsedA] = Some 1716899999"
    by (simp add: getNextPageParam_def parsedA_def baseEvent_def eventA_def timeRaw_def)
  have 3: "upcomingPageOf [eventB, eventA] (Some 1716899999) = [parsedB]"
    by (simp add: upcomingPageOf_def upcomingQueryFn_def query_second_page query_date_based
          validParsed_eventB sortBy_def)
       (simp add: parsedB_def)
  from 1 2 3 show ?thesis by blast
qed

theorem upcoming_pagination_repeats_event_witness:
  "\<exists>ev. ev \<in> set (upcomingPageOf [eventB, eventA] None)
     \<and> ev \<in> set (upcomingPageOf [eventB, eventA]
                   (getNextPageParam (upcomingPageOf [eventB, eventA] None)))"
proof -
  from upcoming_pagination_repeats_event
  have "parsedB \<in> set (upcomingPageOf [eventB, eventA] None)
        \<and> parsedB \<in> set (upcomingPageOf [eventB, eventA]
                          (getNextPageParam (upcomingPageOf [eventB, eventA] None)))"
    by simp
  then show ?thesis ..
qed

subsection \<open>Decimal digits: parseInt after toString\<close>

lemma of_char_digitChar: "k < 10 \<Longrightarrow> of_char (digitChar k) = 48 + k"
  by (simp add: digitChar_def)

lemma isDecDigit_digitChar: "k < 10 \<Longrightarrow> isDecDigit (digitChar k)"
  by (simp add: isDecDigit_def of_char_digitChar)

lemma digitValue_digitChar: "k < 10 \<Longrightarrow> digitValue (digitChar k) = k"
  by (simp add: digitValue_def isDecDigit_digitChar of_char_digitChar)

lemma isDecDigit_not_special:
  assumes "isDecDigit c"
  shows "\<not> isWhiteSpace c" "c \<noteq> CHR ''-''" "c \<noteq> CHR ''+''" "c \<noteq> CHR ''x''" "c \<noteq> CHR ''X''"
  using assms by (auto simp: isDecDigit_def isWhiteSpace_def)

lemma natToDigits_digits: "list_all isDecDigit (natToDigits n)"
proof (induction n rule: natToDigits.induct)
  case (1 n)
  show ?case
  proof (cases "n < 10")
    case True
    then show ?thesis
      using isDecDigit_digitChar [of n] by (simp add: natToDigits.simps [of n] digitChar_def)
  next
    case False
    with 1 show ?thesis
      using isDecDigit_digitChar [of "n mod 10"]
      by (simp add: natToDigits.simps [of n] digitChar_def)
  qed
qed

lemma natToDigits_nonempty: "natToDigits n \<noteq> []"
  by (simp add: natToDigits.simps [of n])

lemma digitsValue_snoc: "digitsValue R (z @ [c]) = digitsValue R z * R + digitValue c"
  by (simp add: digitsValue_def)

lemma digitsValue_natToDigits: "digitsValue 10 (natToDigits n) = n"
proof (induction n rule: natToDigits.induct)
  case (1 n)
  show ?case
  proof (cases "n < 10")
    case True
    then show ?thesis
      using digitValue_digitChar [of n]
      by (simp add: natToDigits.simps [of n] digitChar_def digitsValue_def)
  next
    case False
    with 1 show ?thesis
      using digitValue_digitChar [of "n mod 10"]
      by (simp add: natToDigits.simps [of n] digitChar_def digitsValue_snoc)
  qed
qed

lemma parseInt_digits:
  assumes "ds \<noteq> []" "list_all isDecDigit ds"
  shows "parseInt ds = Some (int (digitsValue 10 ds))"
    and "parseInt (CHR ''-'' # ds) = Some (- int (digitsValue 10 ds))"
proof -
  from assms obtain c cs where ds: "ds = c # cs" and c: "isDecDigit c"
    by (cases ds) auto
  have sp: "stripPrefix ds = (10, ds)"
  proof (cases cs)
    case Nil
    with ds show ?thesis by simp
  next
    case (Cons b bs)
    with assms ds have "isDecDigit b" by simp
    with ds Cons show ?thesis by (simp add: isDecDigit_not_special)
  qed
  have tw: "takeWhile isDecDigit ds = ds"
    using assms(2) by (simp add: takeWhile_eq_all_conv list_all_iff)
  have dw: "dropWhile isWhiteSpace ds = ds"
    using c by (simp add: ds isDecDigit_not_special)
  have ss: "splitSign ds = (1, ds)"
    using c by (simp add: ds isDecDigit_not_special)
  show "parseInt ds = Some (int (digitsValue 10 ds))"
    using assms(1) by (simp add: parseInt_def parseDigits_def dw ss sp tw)
  show "parseInt (CHR ''-'' # ds) = Some (- int (digitsValue 10 ds))"
    using assms(1) by (simp add: parseInt_def parseDigits_def isWhiteSpace_def sp tw)
qed

lemma parseInt_toString: "isSafeInteger n \<Longrightarrow> parseInt (toString beyond n) = Some n"
  using parseInt_digits [OF natToDigits_nonempty natToDigits_digits]
  by (simp add: toString_def digitsValue_natToDigits)

lemma toString_nonempty: "isSafeInteger n \<Longrightarrow> toString beyond n \<noteq> []"
  by (simp add: toString_def natToDigits_nonempty)


subsection \<open>Looking up the tags that serializeCalendarEvent writes\<close>

lemma at_index_Cons0: "at_index (x # xs) 0 = x"
  by (simp add: at_index_def)

lemma hasName_Cons: "hasName n (Some m # rest) = (n = m)"
  by (auto simp: hasName_def at_index_def)

lemma filter_optTag: "filter (hasName n) (optTag m v) = (if n = m then optTag m v else [])"
  by (simp add: optTag_def hasName_Cons)

lemma filter_map_pair:
  "filter (hasName n) (map (\<lambda>x. [Some m, x]) xs) = (if n = m then map (\<lambda>x. [Some m, x]) xs else [])"
  by (induction xs) (simp_all add: hasName_Cons)

lemma filter_participantTags:
  "filter (hasName n) (map participantTag ps) = (if n = ''p'' then map participantTag ps else [])"
  by (induction ps) (simp_all add: hasName_Cons participantTag_def)

lemma find_as_filter: "find P xs = (case filter P xs of [] \<Rightarrow> None | x # _ \<Rightarrow> Some x)"
  by (induction xs) simp_all

lemma getTagValue_filter:
  "getTagValue event n =
     (case filter (hasName n) (ev_tags event) of [] \<Rightarrow> None | tag # _ \<Rightarrow> at_index tag 1)"
  by (simp add: getTagValue_def find_as_filter split: list.splits)

lemmas filter_tags =
  filter_optTag filter_map_pair filter_participantTags hasName_Cons commonTags_def

lemma optTag_value:
  "nonEmptyOpt v \<Longrightarrow> (case optTag m v of [] \<Rightarrow> None | tag # _ \<Rightarrow> at_index tag 1) = v"
  by (cases v) (auto simp: optTag_def truthy_def nonEmptyOpt_def at_index_def)

lemma parseParticipant_participantTag:
  "participantOk p \<Longrightarrow> parseParticipant (participantTag p) = p"
  by (cases "relayUrl p"; cases "role p")
     (auto simp: participantOk_def nonEmptyOpt_def parseParticipant_def participantTag_def
        truthy_def at_index_def)

lemma at_index_pair: "at_index [a, b] (Suc 0) = b"
  by (simp add: at_index_def)

lemma map_parseParticipant:
  "list_all participantOk ps \<Longrightarrow> map (parseParticipant \<circ> participantTag) ps = ps"
  by (induction ps) (simp_all add: parseParticipant_participantTag)

lemma baseEvent_date:
  assumes "baseOk b"
  shows "baseEvent (rawOf beyond (DateBasedCalendarEvent b s e) i p c) (d b) (title b) =
           b\<lparr>id' := i, pubkey := p, created_at := c,
             tags := part_tags (serializeCalendarEvent beyond (DateBasedCalendarEvent b s e))\<rparr>"
  using assms
  by (cases b)
     (simp add: baseEvent_def rawOf_def mergeEvent_def getTagValue_filter getTagValues_def
        filter_tags optTag_value at_index_pair comp_def map_parseParticipant [unfolded comp_def]
        baseOk_def)

lemma baseEvent_time:
  assumes "baseOk b"
  shows "baseEvent (rawOf beyond (TimeBasedCalendarEvent b s e z1 z2) i p c) (d b) (title b) =
           b\<lparr>id' := i, pubkey := p, created_at := c,
             tags := part_tags (serializeCalendarEvent beyond (TimeBasedCalendarEvent b s e z1 z2))\<rparr>"
  using assms
  by (cases b; cases e)
     (simp_all add: baseEvent_def rawOf_def mergeEvent_def getTagValue_filter getTagValues_def
        filter_tags optTag_value at_index_pair comp_def map_parseParticipant [unfolded comp_def]
        baseOk_def)

lemma date_lookups:
  "getTagValue (rawOf beyond (DateBasedCalendarEvent b s e) i p c) ''d'' = Some (d b)"
  "getTagValue (rawOf beyond (DateBasedCalendarEvent b s e) i p c) ''title'' = Some (title b)"
  "getTagValue (rawOf beyond (DateBasedCalendarEvent b s e) i p c) ''start'' = Some s"
  "nonEmptyOpt e \<Longrightarrow> getTagValue (rawOf beyond (DateBasedCalendarEvent b s e) i p c) ''end'' = e"
  "ev_kind (rawOf beyond (DateBasedCalendarEvent b s e) i p c) = 31922"
  by (simp_all add: rawOf_def mergeEvent_def getTagValue_filter filter_tags optTag_value
        at_index_pair at_index_def)

lemma time_lookups:
  "getTagValue (rawOf beyond (TimeBasedCalendarEvent b s e z1 z2) i p c) ''d'' = Some (d b)"
  "getTagValue (rawOf beyond (TimeBasedCalendarEvent b s e z1 z2) i p c) ''title'' = Some (title b)"
  "getTagValue (rawOf beyond (TimeBasedCalendarEvent b s e z1 z2) i p c) ''start'' = Some (toString beyond s)"
  "getTagValue (rawOf beyond (TimeBasedCalendarEvent b s e z1 z2) i p c) ''end'' = map_option (toString beyond) e"
  "nonEmptyOpt z1 \<Longrightarrow>
     getTagValue (rawOf beyond (TimeBasedCalendarEvent b s e z1 z2) i p c) ''start_tzid'' = z1"
  "nonEmptyOpt z2 \<Longrightarrow>
     getTagValue (rawOf beyond (TimeBasedCalendarEvent b s e z1 z2) i p c) ''end_tzid'' = z2"
  "ev_kind (rawOf beyond (TimeBasedCalendarEvent b s e z1 z2) i p c) = 31923"
  by (cases e; simp add: rawOf_def mergeEvent_def getTagValue_filter filter_tags optTag_value
        at_index_pair at_index_def)+

lemma round_trip_date:
  assumes v: "validateCalendarEvent tz (rawOf beyond (DateBasedCalendarEvent b s e) i p c)"
    and ok: "baseOk b" "nonEmptyOpt e"
  shows "parseCalendarEvent (rawOf beyond (DateBasedCalendarEvent b s e) i p c) =
           Some (withWireFields i p c (part_tags (serializeCalendarEvent beyond (DateBasedCalendarEvent b s e)))
                   (DateBasedCalendarEvent b s e))"
proof -
  from v have ne: "d b \<noteq> []" "title b \<noteq> []" "s \<noteq> []"
    by (auto simp: validateCalendarEvent_def date_lookups truthy_def split: if_splits)
  show ?thesis
    using ne ok
    by (simp add: parseCalendarEvent_def date_lookups baseEvent_date)
qed

lemma round_trip_time:
  assumes v: "validateCalendarEvent tz (rawOf beyond (TimeBasedCalendarEvent b s e z1 z2) i p c)"
    and ok: "baseOk b" "nonEmptyOpt z1" "nonEmptyOpt z2"
    and safe: "isSafeInteger s" "case e of None \<Rightarrow> True | Some n \<Rightarrow> isSafeInteger n"
  shows "parseCalendarEvent (rawOf beyond (TimeBasedCalendarEvent b s e z1 z2) i p c) =
           Some (withWireFields i p c
                   (part_tags (serializeCalendarEvent beyond (TimeBasedCalendarEvent b s e z1 z2)))
                   (TimeBasedCalendarEvent b s e z1 z2))"
proof -
  from v have ne: "d b \<noteq> []" "title b \<noteq> []"
    by (auto simp: validateCalendarEvent_def time_lookups truthy_def split: if_splits)
  from v safe have en: "e \<noteq> Some 0"
    by (auto simp: validateCalendarEvent_def validateTimeBlock_def time_lookups truthy_def
          parseInt_toString toString_nonempty split: if_splits)
  have pe: "parseEnd (map_option (toString beyond) e) = e"
    using en safe(2)
    by (cases e) (simp_all add: parseEnd_def truthy_def toString_nonempty parseInt_toString)
  show ?thesis
    using ne ok safe(1)
    by (simp add: parseCalendarEvent_def time_lookups baseEvent_time toString_nonempty
          parseInt_toString pe)
qed

subsection \<open>The round trip of calendar events\<close>

text \<open>
  A participant with a role and no relay URL does not survive the round trip: the role
  is written to the third place of the tag, where the parser reads the relay URL.
\<close>

lemma participant_role_shifts:
  "parseParticipant (participantTag participant_role_only) =
     \<lparr>participant_pubkey = Some ''pk1'', relayUrl = Some ''host'', role = None\<rparr>"
  by (simp add: participant_role_only_def parseParticipant_def participantTag_def truthy_def
        at_index_def)

text \<open>
  Nor does a start beyond the safe integers: \<open>10^21\<close> is written as \<open>1e+21\<close>, which
  the validator accepts and the parser reads as 1.
\<close>

lemma huge_start_parses_as_one:
  "validateCalendarEvent tz
     (mergeEvent (serializeCalendarEvent beyondExample event_huge_start) ''id1'' ''pub1'' 1717000000)
   \<and> (\<exists>b. parseCalendarEvent
             (mergeEvent (serializeCalendarEvent beyondExample event_huge_start)
                ''id1'' ''pub1'' 1717000000)
           = Some (TimeBasedCalendarEvent b 1 None None None))"
  by (simp add: event_huge_start_def exampleBase_def toString_def isSafeInteger_def
        beyondExample_def mergeEvent_def commonTags_def optTag_def participantTag_def
        truthy_def validateCalendarEvent_def validateTimeBlock_def parseCalendarEvent_def
        parseEnd_def getTagValue_def hasName_def at_index_def parseInt_eval)

text \<open>
  C1 as stated: for every domain object whose serialization the validator accepts,
  parsing the serialization gives back every field. It fails for an optional field that
  holds the empty string: the serializer writes no tag for it, and the parser returns the
  field absent. Here the summary is empty, the event is valid, and the parsed summary is
  absent.
\<close>

theorem serialize_parse_empty_summary_counterexample:
  "validateCalendarEvent (\<lambda>z. True)
     (mergeEvent (serializeCalendarEvent beyondExample event_empty_summary)
        ''id1'' ''pub1'' 1717000000)
   \<and> (\<exists>ev. parseCalendarEvent
              (mergeEvent (serializeCalendarEvent beyondExample event_empty_summary)
                 ''id1'' ''pub1'' 1717000000)
            = Some ev
          \<and> summary (base ev) = None)
   \<and> summary (base event_empty_summary) = Some []"
  by (simp add: event_empty_summary_def exampleBase_def mergeEvent_def commonTags_def optTag_def
        truthy_def validateCalendarEvent_def validateDateBlock_def dateRegex_def isDecDigit_def
        parseCalendarEvent_def baseEvent_def getTagValue_def getTagValues_def hasName_def
        at_index_def)

text \<open>
  C1 as amended. Let \<open>e\<close> be a date-based or time-based domain object whose
  serialization, with id, public key and creation time merged in, the validator accepts;
  whose optional strings (summary, image, geohash, the date-based end, the two time zone
  ids, each participant's relay URL and role) are absent or not empty; whose participants
  have a role only together with a relay URL; and whose start and end, if time-based, are
  safe integers (of magnitude at most \<open>2^53 - 1\<close>). Then parsing that serialization
  returns \<open>e\<close> in every field: \<open>d\<close>, title, start, end, summary, image, locations,
  geohash, participants, hashtags, references, calendar references, kind, content and the
  time zone ids; id, public key and creation time are the merged ones and \<open>tags\<close>
  holds the serialized tags. This holds whatever the runtime prints for the numbers
  beyond the safe integers.
\<close>

theorem serialize_parse_round_trip:
  assumes "validateCalendarEvent tz (mergeEvent (serializeCalendarEvent beyond e) i p c)"
    and "roundTripOk e"
  shows "parseCalendarEvent (mergeEvent (serializeCalendarEvent beyond e) i p c) =
           Some (withWireFields i p c (part_tags (serializeCalendarEvent beyond e)) e)"
proof (cases e)
  case (DateBasedCalendarEvent b s en)
  with assms round_trip_date [of tz beyond b s en i p c] show ?thesis
    by (simp add: rawOf_def)
next
  case (TimeBasedCalendarEvent b s en z1 z2)
  with assms round_trip_time [of tz beyond b s en z1 z2 i p c] show ?thesis
    by (simp add: rawOf_def)
qed

theorem serialize_parse_round_trip_witness:
  "parseCalendarEvent
     (mergeEvent (serializeCalendarEvent beyondExample event_full) ''id1'' ''pub1'' 1717000001)
     = Some (withWireFields ''id1'' ''pub1'' 1717000001
               (part_tags (serializeCalendarEvent beyondExample event_full)) event_full)
   \<and> roundTripOk event_full
   \<and> validateCalendarEvent (\<lambda>z. z = ''Europe/Berlin'')
        (mergeEvent (serializeCalendarEvent beyondExample event_full)
           ''id1'' ''pub1'' 1717000001)"
proof -
  have ok: "roundTripOk event_full"
    by (simp add: event_full_def exampleBase_def baseOk_def participantOk_def nonEmptyOpt_def
          isSafeInteger_def)
  have v: "validateCalendarEvent (\<lambda>z. z = ''Europe/Berlin'')
             (mergeEvent (serializeCalendarEvent beyondExample event_full)
                ''id1'' ''pub1'' 1717000001)"
    by (simp add: event_full_def time_lookups [unfolded rawOf_def] validateCalendarEvent_def
          validateTimeBlock_def truthy_def parseInt_toString toString_nonempty nonEmptyOpt_def
          isSafeInteger_def exampleBase_def del: serializeCalendarEvent.simps)
  from serialize_parse_round_trip [OF v ok] ok v show ?thesis by blast
qed

end
